theory Spec2Isabelle
  imports Complex_Main
begin

text \<open>
  A model of the class \<open>MicroSQL\<close> of \<open>src/index.ts\<close>: the statement methods
  \<open>select\<close>, \<open>insert\<close>, \<open>delete\<close> and \<open>update\<close>, and the private functions
  \<open>coerceValue\<close>, \<open>splitRespectingQuotes\<close>, \<open>evalWhere\<close>, \<open>splitLogicalOperator\<close> and
  \<open>evalCondition\<close>, with the parts of the JavaScript library they call (regular
  expressions, conversions between text and Numbers, comparison, sorting).  The JSON
  files of a directory are a map from table names to lists of records; what a method
  throws is a value of type \<open>error\<close>.  The dispatcher \<open>query\<close>, which trims the statement
  and selects the method by its first word, is not part of the model.
\<close>

section \<open>Characters and strings\<close>

text \<open>
  A JavaScript string is a sequence of UTF-16 code units.  The model uses \<^typ>\<open>string\<close>,
  so a character is a code unit in the range 0..255 (ASCII and Latin-1).  Within that
  range the character classes below are the ones of ECMAScript: \<open>\s\<close> and
  \<open>String.prototype.trim\<close> both treat TAB, LF, VT, FF, CR, SPACE and NBSP as white
  space, \<open>\w\<close> is \<open>[A-Za-z0-9_]\<close>, and \<open>.\<close> excludes the line terminators LF and CR.
\<close>

definition code :: "char \<Rightarrow> nat" where
  "code c = of_char c"

definition dquote :: char where
  "dquote = CHR 0x22"

definition squote :: char where
  "squote = CHR 0x27"

definition backslash :: char where
  "backslash = CHR 0x5C"

definition is_space :: "char \<Rightarrow> bool" where
  "is_space c = (let n = code c in n = 9 \<or> n = 10 \<or> n = 11 \<or> n = 12 \<or> n = 13 \<or> n = 32 \<or> n = 160)"

definition is_digit :: "char \<Rightarrow> bool" where
  "is_digit c = (let n = code c in 48 \<le> n \<and> n \<le> 57)"

definition is_word :: "char \<Rightarrow> bool" where
  "is_word c = (let n = code c in (48 \<le> n \<and> n \<le> 57) \<or> (65 \<le> n \<and> n \<le> 90) \<or> (97 \<le> n \<and> n \<le> 122) \<or> n = 95)"

definition is_line_terminator :: "char \<Rightarrow> bool" where
  "is_line_terminator c = (let n = code c in n = 10 \<or> n = 13)"

definition is_quote :: "char \<Rightarrow> bool" where
  "is_quote c = (c = dquote \<or> c = squote)"

text \<open>
  \<open>Canonicalize\<close> of a regular expression with the \<open>i\<close> flag and without the \<open>u\<close> flag:
  the character is replaced by its upper-case form when that is a single code unit.  In
  the range 0..255 this folds \<open>a-z\<close> and the Latin-1 letters 0xE0..0xFE (without the
  division sign 0xF7); the upper-case forms of 0xB5 and 0xFF lie outside the range and
  are shared with no other character of the range, so both stay fixed.
\<close>

definition canonicalize :: "char \<Rightarrow> char" where
  "canonicalize c =
     (let n = code c
      in if (97 \<le> n \<and> n \<le> 122) \<or> (224 \<le> n \<and> n \<le> 254 \<and> n \<noteq> 247) then char_of (n - 32) else c)"

text \<open>\<open>String.prototype.trim\<close>, \<open>startsWith\<close>, \<open>endsWith\<close> and \<open>slice(1, -1)\<close>.\<close>

definition trimStart :: "string \<Rightarrow> string" where
  "trimStart s = dropWhile is_space s"

definition trim :: "string \<Rightarrow> string" where
  "trim s = rev (dropWhile is_space (rev (dropWhile is_space s)))"

definition startsWith :: "string \<Rightarrow> char \<Rightarrow> bool" where
  "startsWith s c = (case s of [] \<Rightarrow> False | x # _ \<Rightarrow> x = c)"

definition endsWith :: "string \<Rightarrow> char \<Rightarrow> bool" where
  "endsWith s c = (case rev s of [] \<Rightarrow> False | x # _ \<Rightarrow> x = c)"

definition slice_1_m1 :: "string \<Rightarrow> string" where
  "slice_1_m1 s = butlast (tl s)"

section \<open>Regular expressions\<close>

text \<open>
  The regular expressions of the source are written as terms of \<open>rx\<close>; every one of
  them carries the \<open>i\<close> flag, so literal characters compare after \<open>canonicalize\<close>.
  Quantifiers occur in the source only on single-character classes (\<open>Rep\<close>: the class,
  the least number of repetitions, and whether the quantifier is greedy) and as \<open>?\<close> on
  groups (\<open>Opt\<close>).  \<open>matches r s cs\<close> lists, in the order in which a backtracking
  matcher tries them, every way \<open>r\<close> matches a prefix of \<open>s\<close>: the number of characters
  consumed and the captures.  The head of the list is the match JavaScript reports.
\<close>

datatype cc = CWord | CSpace | CNonSpace | CDigit | CDot
  | COneOf "char list" | CNoneOf "char list" | CChar char

fun cc_match :: "cc \<Rightarrow> char \<Rightarrow> bool" where
  "cc_match CWord c = is_word c"
| "cc_match CSpace c = is_space c"
| "cc_match CNonSpace c = (\<not> is_space c)"
| "cc_match CDigit c = is_digit c"
| "cc_match CDot c = (\<not> is_line_terminator c)"
| "cc_match (COneOf cs) c = (c \<in> set cs)"
| "cc_match (CNoneOf cs) c = (c \<notin> set cs)"
| "cc_match (CChar x) c = (canonicalize c = canonicalize x)"

datatype rx = Cls cc | Rep cc nat bool | Lit string
  | Seq rx rx | Alt rx rx | Opt rx | Cap nat rx | Eol

type_synonym caps = "nat \<Rightarrow> string option"

definition lit_match :: "string \<Rightarrow> string \<Rightarrow> bool" where
  "lit_match w s = (length w \<le> length s \<and> map canonicalize (take (length w) s) = map canonicalize w)"

definition rep_counts :: "cc \<Rightarrow> nat \<Rightarrow> bool \<Rightarrow> string \<Rightarrow> nat list" where
  "rep_counts c mn greedy s =
     (let m = length (takeWhile (cc_match c) s)
      in if greedy then rev [mn ..< Suc m] else [mn ..< Suc m])"

fun matches :: "rx \<Rightarrow> string \<Rightarrow> caps \<Rightarrow> (nat \<times> caps) list" where
  "matches (Cls c) s cs = (case s of [] \<Rightarrow> [] | x # _ \<Rightarrow> if cc_match c x then [(1, cs)] else [])"
| "matches (Rep c mn greedy) s cs = map (\<lambda>k. (k, cs)) (rep_counts c mn greedy s)"
| "matches (Lit w) s cs = (if lit_match w s then [(length w, cs)] else [])"
| "matches (Seq a b) s cs =
     concat (map (\<lambda>(k, c1). map (\<lambda>(j, c2). (k + j, c2)) (matches b (drop k s) c1)) (matches a s cs))"
| "matches (Alt a b) s cs = matches a s cs @ matches b s cs"
| "matches (Opt a) s cs = matches a s cs @ [(0, cs)]"
| "matches (Cap i a) s cs = map (\<lambda>(k, c1). (k, c1(i \<mapsto> take k s))) (matches a s cs)"
| "matches Eol s cs = (if s = [] then [(0, cs)] else [])"

text \<open>
  \<open>String.prototype.match\<close> with a non-global expression: the start positions are tried
  from left to right, the end of the text included.  The result is the index of the
  match and the captures, capture 0 being the matched text.
\<close>

fun rx_search :: "rx \<Rightarrow> nat \<Rightarrow> string \<Rightarrow> (nat \<times> caps) option" where
  "rx_search r i [] =
     (case matches r [] Map.empty of
        [] \<Rightarrow> None
      | (k, c) # _ \<Rightarrow> Some (i, c(0 \<mapsto> [])))"
| "rx_search r i (x # xs) =
     (case matches r (x # xs) Map.empty of
        [] \<Rightarrow> rx_search r (Suc i) xs
      | (k, c) # _ \<Rightarrow> Some (i, c(0 \<mapsto> take k (x # xs))))"

definition rx_exec :: "rx \<Rightarrow> string \<Rightarrow> (nat \<times> caps) option" where
  "rx_exec r s = rx_search r 0 s"

text \<open>A capture that took part in the match; an absent one reads as the empty text.\<close>

definition grp :: "caps \<Rightarrow> nat \<Rightarrow> string" where
  "grp c i = (case c i of None \<Rightarrow> [] | Some s \<Rightarrow> s)"

fun seqs :: "rx list \<Rightarrow> rx" where
  "seqs [] = Lit []"
| "seqs [r] = r"
| "seqs (r # rs) = Seq r (seqs rs)"

section \<open>Numbers\<close>

text \<open>
  A Number is NaN, an infinity, or a finite double, kept as the rational it denotes
  (the two zeros are one value: no operation of this program tells them apart).
  \<open>to_double\<close> rounds a rational to the nearest double, ties to the even significand:
  53 significant bits, least exponent \<open>-1022\<close>, overflow to an infinity.
\<close>

datatype jsnum = NaN | PInf | NInf | Fin rat

fun bitlen :: "nat \<Rightarrow> nat" where
  "bitlen n = (if n = 0 then 0 else Suc (bitlen (n div 2)))"

fun declen :: "nat \<Rightarrow> nat" where
  "declen n = (if n = 0 then 0 else Suc (declen (n div 10)))"

declare bitlen.simps [simp del]

declare declen.simps [simp del]

definition pow_int :: "rat \<Rightarrow> int \<Rightarrow> rat" where
  "pow_int b k = (if 0 \<le> k then b ^ nat k else 1 / b ^ nat (- k))"

definition floor_log :: "(nat \<Rightarrow> nat) \<Rightarrow> rat \<Rightarrow> rat \<Rightarrow> int" where
  "floor_log len b a =
     (let (n, d) = quotient_of a; k = int (len (nat n)) - int (len (nat d))
      in if pow_int b k \<le> a then k else k - 1)"

definition round_half_even :: "rat \<Rightarrow> int" where
  "round_half_even x =
     (let f = \<lfloor>x\<rfloor>; r = x - of_int f
      in if r < 1 / 2 then f else if 1 / 2 < r then f + 1 else if even f then f else f + 1)"

definition to_double :: "rat \<Rightarrow> jsnum" where
  "to_double q =
     (if q = 0 then Fin 0
      else let a = \<bar>q\<bar>;
               e = max (floor_log bitlen 2 a) (- 1022);
               m = round_half_even (a / pow_int 2 (e - 52))
           in if 1023 < e \<or> (e = 1023 \<and> m = 9007199254740992) then (if q < 0 then NInf else PInf)
              else Fin ((if q < 0 then - 1 else 1) * of_int m * pow_int 2 (e - 52)))"

text \<open>
  Numeric text.  \<open>str_decimal\<close> reads the longest prefix that is a \<open>StrDecimalLiteral\<close>
  and returns its value and the rest of the text; \<open>parseFloat\<close> takes that prefix after
  skipping leading white space, and \<open>StringToNumber\<close> (the conversion \<open>Number(s)\<close> and
  \<open>==\<close> apply to a string) accepts only a whole trimmed text, the empty text as 0, and
  the prefixed binary, octal and hexadecimal integers.
\<close>

definition digit_val :: "char \<Rightarrow> nat" where
  "digit_val c =
     (let n = code c
      in if 48 \<le> n \<and> n \<le> 57 then n - 48
         else if 97 \<le> n \<and> n \<le> 102 then n - 87
         else if 65 \<le> n \<and> n \<le> 70 then n - 55
         else 16)"

definition radix_val :: "nat \<Rightarrow> string \<Rightarrow> nat" where
  "radix_val b ds = foldl (\<lambda>a c. b * a + digit_val c) 0 ds"

definition opt_sign :: "string \<Rightarrow> bool \<times> string" where
  "opt_sign s =
     (case s of
        [] \<Rightarrow> (False, s)
      | x # r \<Rightarrow> if x = CHR ''-'' then (True, r) else if x = CHR ''+'' then (False, r) else (False, s))"

definition exponent_part :: "string \<Rightarrow> (int \<times> string) option" where
  "exponent_part s =
     (case s of
        [] \<Rightarrow> None
      | e # r \<Rightarrow>
          if e = CHR ''e'' \<or> e = CHR ''E''
          then (let (neg, r1) = opt_sign r; ds = takeWhile is_digit r1
                in if ds = [] then None
                   else Some ((if neg then - 1 else 1) * int (radix_val 10 ds), dropWhile is_digit r1))
          else None)"

definition unsigned_decimal :: "string \<Rightarrow> (rat \<times> string) option" where
  "unsigned_decimal s =
     (let ip = takeWhile is_digit s;
          r1 = dropWhile is_digit s;
          (fp, r2) = (case r1 of
                        [] \<Rightarrow> ([], r1)
                      | d # r \<Rightarrow> if d = CHR ''.'' then (takeWhile is_digit r, dropWhile is_digit r)
                                 else ([], r1))
      in if ip = [] \<and> fp = [] then None
         else let m = of_nat (radix_val 10 (ip @ fp)) * pow_int 10 (- int (length fp))
              in case exponent_part r2 of
                   None \<Rightarrow> Some (m, r2)
                 | Some (x, r3) \<Rightarrow> Some (m * pow_int 10 x, r3))"

definition str_decimal :: "string \<Rightarrow> (jsnum \<times> string) option" where
  "str_decimal s =
     (let (neg, r) = opt_sign s
      in if take 8 r = ''Infinity'' then Some (if neg then NInf else PInf, drop 8 r)
         else case unsigned_decimal r of
                None \<Rightarrow> None
              | Some (q, rest) \<Rightarrow> Some (to_double (if neg then - q else q), rest))"

definition parseFloat_str :: "string \<Rightarrow> jsnum" where
  "parseFloat_str s = (case str_decimal (trimStart s) of None \<Rightarrow> NaN | Some (v, _) \<Rightarrow> v)"

definition radix_prefix :: "string \<Rightarrow> nat option" where
  "radix_prefix t =
     (case t of
        z # x # _ \<Rightarrow>
          if z \<noteq> CHR ''0'' then None
          else if x = CHR ''x'' \<or> x = CHR ''X'' then Some 16
          else if x = CHR ''o'' \<or> x = CHR ''O'' then Some 8
          else if x = CHR ''b'' \<or> x = CHR ''B'' then Some 2
          else None
      | _ \<Rightarrow> None)"

definition StringToNumber :: "string \<Rightarrow> jsnum" where
  "StringToNumber s =
     (let t = trim s
      in if t = [] then Fin 0
         else case radix_prefix t of
                Some b \<Rightarrow>
                  (let ds = drop 2 t
                   in if ds \<noteq> [] \<and> list_all (\<lambda>c. digit_val c < b) ds
                      then to_double (of_nat (radix_val b ds)) else NaN)
              | None \<Rightarrow>
                  (case str_decimal t of
                     None \<Rightarrow> NaN
                   | Some (v, rest) \<Rightarrow> if rest = [] then v else NaN))"

text \<open>
  \<open>Number::toString\<close>: the shortest digit string \<open>s\<close> (of \<open>k\<close> digits, at most 17) and
  the exponent \<open>n\<close> with \<open>s * 10 ^ (n - k)\<close> rounding to the number, the closest such
  \<open>s\<close> when there are two; then the notation chosen by \<open>n\<close>.
\<close>

fun dec_str :: "nat \<Rightarrow> string" where
  "dec_str n = (if n < 10 then [char_of (48 + n)] else dec_str (n div 10) @ [char_of (48 + n mod 10)])"

declare dec_str.simps [simp del]

definition digits_at :: "rat \<Rightarrow> int \<Rightarrow> nat \<Rightarrow> int option" where
  "digits_at v n0 k =
     (let u = pow_int 10 (n0 - int k);
          lo = \<lfloor>v / u\<rfloor>;
          hi = lo + 1;
          ok_lo = (to_double (of_int lo * u) = Fin v);
          ok_hi = (to_double (of_int hi * u) = Fin v)
      in if ok_lo \<and> ok_hi
         then Some (if v - of_int lo * u < of_int hi * u - v
                       \<or> (v - of_int lo * u = of_int hi * u - v \<and> even lo) then lo else hi)
         else if ok_lo then Some lo
         else if ok_hi then Some hi
         else None)"

definition shortest_digits :: "rat \<Rightarrow> string \<times> int" where
  "shortest_digits v =
     (let n0 = floor_log declen 10 v + 1
      in case List.find (\<lambda>k. digits_at v n0 k \<noteq> None) [1 ..< 18] of
           None \<Rightarrow> (dec_str (nat \<lfloor>v / pow_int 10 (n0 - 17)\<rfloor>), n0)
         | Some k \<Rightarrow>
             (case digits_at v n0 k of
                None \<Rightarrow> ([], n0)
              | Some s \<Rightarrow> if s = 10 ^ k then (dec_str (nat (s div 10)), n0 + 1)
                         else (dec_str (nat s), n0)))"

definition format_digits :: "string \<Rightarrow> int \<Rightarrow> string" where
  "format_digits ds n =
     (let k = int (length ds)
      in if k \<le> n \<and> n \<le> 21 then ds @ replicate (nat (n - k)) (CHR ''0'')
         else if 0 < n \<and> n \<le> 21 then take (nat n) ds @ ''.'' @ drop (nat n) ds
         else if - 6 < n \<and> n \<le> 0 then ''0.'' @ replicate (nat (- n)) (CHR ''0'') @ ds
         else let ex = (if n - 1 < 0 then ''-'' else ''+'') @ dec_str (nat \<bar>n - 1\<bar>)
              in if k = 1 then ds @ ''e'' @ ex
                 else take 1 ds @ ''.'' @ drop 1 ds @ ''e'' @ ex)"

definition number_to_string :: "jsnum \<Rightarrow> string" where
  "number_to_string x =
     (case x of
        NaN \<Rightarrow> ''NaN''
      | PInf \<Rightarrow> ''Infinity''
      | NInf \<Rightarrow> ''-Infinity''
      | Fin q \<Rightarrow>
          if q = 0 then ''0''
          else let (ds, n) = shortest_digits \<bar>q\<bar>
               in (if q < 0 then ''-'' else []) @ format_digits ds n)"

section \<open>Values, records and the row store\<close>

text \<open>
  \<open>type Row = Record<string, any>\<close>.  A table is a JSON file holding an array of flat
  records, so a field holds a JSON scalar; \<open>JNum q\<close> is the number \<open>JSON.parse\<close> yields
  for a numeric literal of value \<open>q\<close>, the double nearest to \<open>q\<close>.  A record is a map
  from field names: reading a missing field gives \<open>undefined\<close>, and a field assigned
  \<open>undefined\<close> (which \<open>JSON.stringify\<close> leaves out of the file) is a missing field.
  The order of the keys of a record is not modelled, and neither are the members a
  record inherits from \<open>Object.prototype\<close>: a field named \<open>constructor\<close> or \<open>toString\<close>
  that the record does not hold reads here as \<open>undefined\<close>, and a field named
  \<open>__proto__\<close>, which an assignment does not store, is a field like any other here.
  \<open>prim\<close> is the value at run time.
\<close>

datatype json = JNull | JBool bool | JNum rat | JStr string

datatype prim = Undefined | Null | Bool bool | Num jsnum | Str string

type_synonym row = "string \<rightharpoonup> json"

definition field :: "row \<Rightarrow> string \<Rightarrow> prim" where
  "field r f =
     (case r f of
        None \<Rightarrow> Undefined
      | Some JNull \<Rightarrow> Null
      | Some (JBool b) \<Rightarrow> Bool b
      | Some (JNum q) \<Rightarrow> Num (to_double q)
      | Some (JStr s) \<Rightarrow> Str s)"

fun ToString :: "prim \<Rightarrow> string" where
  "ToString Undefined = ''undefined''"
| "ToString Null = ''null''"
| "ToString (Bool b) = (if b then ''true'' else ''false'')"
| "ToString (Num x) = number_to_string x"
| "ToString (Str s) = s"

fun ToNumber :: "prim \<Rightarrow> jsnum" where
  "ToNumber Undefined = NaN"
| "ToNumber Null = Fin 0"
| "ToNumber (Bool b) = (if b then Fin 1 else Fin 0)"
| "ToNumber (Num x) = x"
| "ToNumber (Str s) = StringToNumber s"

definition parseFloat :: "prim \<Rightarrow> jsnum" where
  "parseFloat v = parseFloat_str (ToString v)"

text \<open>Comparison of Numbers: every comparison with NaN is false.\<close>

fun num_less :: "jsnum \<Rightarrow> jsnum \<Rightarrow> bool" where
  "num_less NaN _ = False"
| "num_less _ NaN = False"
| "num_less NInf NInf = False"
| "num_less NInf _ = True"
| "num_less _ NInf = False"
| "num_less PInf _ = False"
| "num_less (Fin a) PInf = True"
| "num_less (Fin a) (Fin b) = (a < b)"

definition num_eq :: "jsnum \<Rightarrow> jsnum \<Rightarrow> bool" where
  "num_eq a b = (a \<noteq> NaN \<and> b \<noteq> NaN \<and> a = b)"

definition num_greater :: "jsnum \<Rightarrow> jsnum \<Rightarrow> bool" where
  "num_greater a b = num_less b a"

definition num_le :: "jsnum \<Rightarrow> jsnum \<Rightarrow> bool" where
  "num_le a b = (a \<noteq> NaN \<and> b \<noteq> NaN \<and> \<not> num_less b a)"

definition num_ge :: "jsnum \<Rightarrow> jsnum \<Rightarrow> bool" where
  "num_ge a b = (a \<noteq> NaN \<and> b \<noteq> NaN \<and> \<not> num_less a b)"

text \<open>\<open>actual == value\<close> with a string on the right (loose equality).\<close>

fun loose_eq_str :: "prim \<Rightarrow> string \<Rightarrow> bool" where
  "loose_eq_str Undefined v = False"
| "loose_eq_str Null v = False"
| "loose_eq_str (Str s) v = (s = v)"
| "loose_eq_str (Num x) v = num_eq x (StringToNumber v)"
| "loose_eq_str (Bool b) v = num_eq (ToNumber (Bool b)) (StringToNumber v)"

text \<open>\<open>a < b\<close> on primitive values: two strings compare by code units, anything else as Numbers.\<close>

fun str_less :: "string \<Rightarrow> string \<Rightarrow> bool" where
  "str_less [] [] = False"
| "str_less [] (y # ys) = True"
| "str_less (x # xs) [] = False"
| "str_less (x # xs) (y # ys) = (code x < code y \<or> (x = y \<and> str_less xs ys))"

fun js_less :: "prim \<Rightarrow> prim \<Rightarrow> bool" where
  "js_less (Str a) (Str b) = str_less a b"
| "js_less a b = num_less (ToNumber a) (ToNumber b)"

text \<open>
  The row store.  \<open>load\<close> returns the empty table when the file does not exist and the
  records \<open>JSON.parse\<close> reads otherwise.  \<open>save\<close> replaces the file by what
  \<open>JSON.stringify\<close> writes for the records: a Number that is not finite (what a literal
  beyond the range of a double, such as \<open>1e400\<close>, is read as) is written as \<open>null\<close>; a
  finite Number is written as the shortest literal that is read back as the same Number,
  so the literal it was read from stands for it still.
\<close>

type_synonym store = "string \<rightharpoonup> row list"

definition load :: "store \<Rightarrow> string \<Rightarrow> row list" where
  "load st table = (case st table of None \<Rightarrow> [] | Some rows \<Rightarrow> rows)"

fun stringify_value :: "json \<Rightarrow> json" where
  "stringify_value (JNum q) = (case to_double q of Fin d \<Rightarrow> JNum q | _ \<Rightarrow> JNull)"
| "stringify_value v = v"

definition stringify_row :: "row \<Rightarrow> row" where
  "stringify_row r = (\<lambda>f. map_option stringify_value (r f))"

definition save :: "store \<Rightarrow> string \<Rightarrow> row list \<Rightarrow> store" where
  "save st table rows = st(table \<mapsto> map stringify_row rows)"

datatype error = Error string | SyntaxError string

section \<open>The splitters\<close>

text \<open>
  \<open>value.replace(/^["']|["']$/g, "")\<close> and \<open>rawValue.replace(/^\(|\)$/g, "")\<close>: the
  first alternative can match only at index 0 and the second only at the last character;
  after a match at index 0 the search goes on from index 1.
\<close>

definition drop_last_if :: "(char \<Rightarrow> bool) \<Rightarrow> string \<Rightarrow> string" where
  "drop_last_if p s = (if s \<noteq> [] \<and> p (last s) then butlast s else s)"

definition strip_ends :: "(char \<Rightarrow> bool) \<Rightarrow> (char \<Rightarrow> bool) \<Rightarrow> string \<Rightarrow> string" where
  "strip_ends p q s =
     (case s of
        [] \<Rightarrow> []
      | x # r \<Rightarrow> if p x then drop_last_if q r else drop_last_if q (x # r))"

definition strip_quotes :: "string \<Rightarrow> string" where
  "strip_quotes s = strip_ends is_quote is_quote s"

definition strip_parens :: "string \<Rightarrow> string" where
  "strip_parens s = strip_ends (\<lambda>c. c = CHR ''('') (\<lambda>c. c = CHR '')'') s"

text \<open>\<open>splitRespectingQuotes\<close>: one step of the loop for each character, then the last segment.\<close>

record qstate =
  result :: "string list"
  current :: string
  inQuotes :: bool
  quoteChar :: string

definition qinit :: qstate where
  "qinit = \<lparr>result = [], current = [], inQuotes = False, quoteChar = []\<rparr>"

definition qstep :: "char \<Rightarrow> qstate \<Rightarrow> char \<Rightarrow> qstate" where
  "qstep delimiter st c =
     (if is_quote c \<and> \<not> inQuotes st
      then st\<lparr>inQuotes := True, quoteChar := [c], current := current st @ [c]\<rparr>
      else if [c] = quoteChar st \<and> inQuotes st
      then st\<lparr>inQuotes := False, quoteChar := [], current := current st @ [c]\<rparr>
      else if c = delimiter \<and> \<not> inQuotes st
      then st\<lparr>result := result st @ [trim (current st)], current := []\<rparr>
      else st\<lparr>current := current st @ [c]\<rparr>)"

definition qfinish :: "qstate \<Rightarrow> string list" where
  "qfinish st = (if trim (current st) \<noteq> [] then result st @ [trim (current st)] else result st)"

definition splitRespectingQuotes :: "string \<Rightarrow> char \<Rightarrow> string list" where
  "splitRespectingQuotes str delimiter = qfinish (foldl (qstep delimiter) qinit str)"

text \<open>
  \<open>splitLogicalOperator\<close>.  The expression built from the operator is
  \<open>\s+OPERATOR\s+\<close> with the \<open>i\<close> flag (the operator is the word \<open>OR\<close> or \<open>AND\<close>).  At a
  character outside quotes and at depth 0 the rest of the clause is searched, and a match
  at index 0 closes the current part; \<open>i += match[0].length - 1\<close> is the field \<open>skip\<close>, the
  number of characters the loop passes over (a match holds the operator and white space
  on both sides, so it is never empty), and \<open>prev\<close> is \<open>clause[i - 1]\<close>.
\<close>

definition operator_rx :: "string \<Rightarrow> rx" where
  "operator_rx operator = seqs [Rep CSpace 1 True, Lit operator, Rep CSpace 1 True]"

record lstate =
  parts :: "string list"
  cur :: string
  inQ :: bool
  qChar :: string
  depth :: int
  skip :: nat
  prev :: "char option"

definition linit :: lstate where
  "linit = \<lparr>parts = [], cur = [], inQ = False, qChar = [], depth = 0, skip = 0, prev = None\<rparr>"

definition lquote :: "char \<Rightarrow> lstate \<Rightarrow> lstate" where
  "lquote c st =
     (if is_quote c \<and> \<not> inQ st \<and> prev st \<noteq> Some backslash
      then st\<lparr>inQ := True, qChar := [c]\<rparr>
      else if [c] = qChar st \<and> inQ st \<and> prev st \<noteq> Some backslash
      then st\<lparr>inQ := False, qChar := []\<rparr>
      else if c = CHR ''('' \<and> \<not> inQ st then st\<lparr>depth := depth st + 1\<rparr>
      else if c = CHR '')'' \<and> \<not> inQ st then st\<lparr>depth := depth st - 1\<rparr>
      else st)"

definition operator_at :: "rx \<Rightarrow> string \<Rightarrow> nat option" where
  "operator_at r remaining =
     (case rx_exec r remaining of
        None \<Rightarrow> None
      | Some (i, c) \<Rightarrow> if i = 0 then Some (length (grp c 0)) else None)"

fun lscan :: "rx \<Rightarrow> string \<Rightarrow> lstate \<Rightarrow> lstate" where
  "lscan r [] st = st"
| "lscan r (c # cs) st =
     (if 0 < skip st then lscan r cs (st\<lparr>skip := skip st - 1, prev := Some c\<rparr>)
      else let st1 = lquote c st
           in case (if \<not> inQ st1 \<and> depth st1 = 0 then operator_at r (c # cs) else None) of
                Some n \<Rightarrow> lscan r cs (st1\<lparr>parts := parts st1 @ [trim (cur st1)], cur := [],
                                           skip := n - 1, prev := Some c\<rparr>)
              | None \<Rightarrow> lscan r cs (st1\<lparr>cur := cur st1 @ [c], prev := Some c\<rparr>))"

definition splitLogicalOperator :: "string \<Rightarrow> string \<Rightarrow> string list" where
  "splitLogicalOperator clause operator =
     (let st = lscan (operator_rx operator) clause linit;
          ps = (if trim (cur st) \<noteq> [] then parts st @ [trim (cur st)] else parts st)
      in if ps \<noteq> [] then ps else [clause])"

section \<open>The condition evaluator\<close>

text \<open>
  The pattern of a LIKE condition is built as text and handed to \<open>new RegExp(pattern, "i")\<close>.
  \<open>rx_parse\<close> reads the expressions made of a leading \<open>^\<close>, characters, \<open>.\<close>, an escaped
  syntax character, \<open>*\<close> after any of these, and \<open>$\<close>; on any other text it returns
  \<open>None\<close>, which the evaluator treats as the \<open>SyntaxError\<close> the constructor may throw.
  \<open>rx_test\<close> is \<open>RegExp.prototype.test\<close> for an expression that starts with \<open>^\<close>: only
  index 0 can match.
\<close>

definition syntax_chars :: "char list" where
  "syntax_chars = ''.*+?^${}()|[]'' @ [backslash]"

function rx_atoms :: "string \<Rightarrow> rx list option" where
  "rx_atoms [] = Some []"
| "rx_atoms (c # s) =
     (if c = CHR ''$'' then map_option (\<lambda>rs. Eol # rs) (rx_atoms s)
      else
        (case (if c = backslash
               then (case s of [] \<Rightarrow> None
                     | x # s' \<Rightarrow> if x \<in> set syntax_chars then Some (CChar x, s') else None)
               else if c = CHR ''.'' then Some (CDot, s)
               else if c \<in> set syntax_chars then None
               else Some (CChar c, s)) of
           None \<Rightarrow> None
         | Some (a, rest) \<Rightarrow>
             (case rest of
                [] \<Rightarrow> Some [Cls a]
              | q # rest' \<Rightarrow>
                  if q = CHR ''*'' then map_option (\<lambda>rs. Rep a 0 True # rs) (rx_atoms rest')
                  else map_option (\<lambda>rs. Cls a # rs) (rx_atoms rest))))"
  by pat_completeness auto
termination
  by (relation "measure length") (auto split: if_splits list.splits)

definition rx_parse :: "string \<Rightarrow> rx option" where
  "rx_parse p =
     (case p of
        [] \<Rightarrow> None
      | c # body \<Rightarrow> if c = CHR ''^'' then map_option seqs (rx_atoms body) else None)"

definition rx_test :: "rx \<Rightarrow> string \<Rightarrow> bool" where
  "rx_test r s = (matches r s Map.empty \<noteq> [])"

text \<open>
  \<open>value.replace(/[.*+?^${}()|[\]\\]/g, '\\$&').replace(/%/g, ".*").replace(/_/g, ".")\<close>
  between \<open>"^"\<close> and \<open>"$"\<close>.
\<close>

definition escape_regex :: "string \<Rightarrow> string" where
  "escape_regex v = concat (map (\<lambda>c. if c \<in> set syntax_chars then [backslash, c] else [c]) v)"

definition replace_percent :: "string \<Rightarrow> string" where
  "replace_percent v = concat (map (\<lambda>c. if c = CHR ''%'' then ''.*'' else [c]) v)"

definition replace_underscore :: "string \<Rightarrow> string" where
  "replace_underscore v = map (\<lambda>c. if c = CHR ''_'' then CHR ''.'' else c) v"

definition like_pattern :: "string \<Rightarrow> string" where
  "like_pattern v = ''^'' @ replace_underscore (replace_percent (escape_regex v)) @ ''$''"

text \<open>
  \<open>toUpperCase\<close>, applied in the source to text that an alternative of ASCII words has
  matched.
\<close>

definition toUpperCase :: "string \<Rightarrow> string" where
  "toUpperCase s = map (\<lambda>c. let n = code c in if 97 \<le> n \<and> n \<le> 122 then char_of (n - 32) else c) s"

text \<open>
  The leaf pattern
  \<open>/(\w+)\s*(=|>=|<=|>|<|LIKE|IN)\s*(\([^\)]+\)|["'][^"']*["']|\S+)/i\<close>.
\<close>

definition cond_rx :: rx where
  "cond_rx = seqs
     [Cap 1 (Rep CWord 1 True),
      Rep CSpace 0 True,
      Cap 2 (Alt (Lit ''='') (Alt (Lit ''>='') (Alt (Lit ''<='') (Alt (Lit ''>'') (Alt (Lit ''<'')
              (Alt (Lit ''LIKE'') (Lit ''IN''))))))),
      Rep CSpace 0 True,
      Cap 3 (Alt (seqs [Lit ''('', Rep (CNoneOf '')'') 1 True, Lit '')''])
            (Alt (seqs [Cls (COneOf [dquote, squote]), Rep (CNoneOf [dquote, squote]) 0 True,
                        Cls (COneOf [dquote, squote])])
                 (Rep CNonSpace 1 True)))]"

definition cond_match :: "string \<Rightarrow> (string \<times> string \<times> string) option" where
  "cond_match expr =
     (case rx_exec cond_rx expr of
        None \<Rightarrow> None
      | Some (i, c) \<Rightarrow> Some (grp c 1, grp c 2, grp c 3))"

definition evalOp :: "string \<Rightarrow> string \<Rightarrow> prim \<Rightarrow> error + bool" where
  "evalOp op rawValue actual =
     (if toUpperCase op = ''='' then Inr (loose_eq_str actual (strip_quotes rawValue))
      else if toUpperCase op = ''>'' then Inr (num_greater (parseFloat actual) (parseFloat_str rawValue))
      else if toUpperCase op = ''<'' then Inr (num_less (parseFloat actual) (parseFloat_str rawValue))
      else if toUpperCase op = ''>='' then Inr (num_ge (parseFloat actual) (parseFloat_str rawValue))
      else if toUpperCase op = ''<='' then Inr (num_le (parseFloat actual) (parseFloat_str rawValue))
      else if toUpperCase op = ''LIKE''
      then (case rx_parse (like_pattern (strip_quotes rawValue)) of
              None \<Rightarrow> Inl (SyntaxError (like_pattern (strip_quotes rawValue)))
            | Some regex \<Rightarrow> Inr (rx_test regex (ToString actual)))
      else if toUpperCase op = ''IN''
      then Inr (ToString actual \<in>
                  set (map strip_quotes (splitRespectingQuotes (strip_parens rawValue) (CHR '',''))))
      else Inr False)"

definition evalCondition :: "string \<Rightarrow> row \<Rightarrow> error + bool" where
  "evalCondition expr r =
     (case cond_match expr of
        None \<Rightarrow> Inr False
      | Some (fld, op, rawValue) \<Rightarrow> evalOp op rawValue (field r fld))"

section \<open>The WHERE evaluator\<close>

text \<open>
  \<open>Array.prototype.some\<close> and \<open>every\<close> stop at the first element that decides the
  result; an exception raised by the callback before that ends the call.
\<close>

fun some_e :: "('a \<Rightarrow> error + bool) \<Rightarrow> 'a list \<Rightarrow> error + bool" where
  "some_e f [] = Inr False"
| "some_e f (x # xs) =
     (case f x of Inl e \<Rightarrow> Inl e | Inr b \<Rightarrow> if b then Inr True else some_e f xs)"

fun every_e :: "('a \<Rightarrow> error + bool) \<Rightarrow> 'a list \<Rightarrow> error + bool" where
  "every_e f [] = Inr True"
| "every_e f (x # xs) =
     (case f x of Inl e \<Rightarrow> Inl e | Inr b \<Rightarrow> if b then every_e f xs else Inr False)"

text \<open>
  \<open>while (s.startsWith("(") && s.endsWith(")")) s = s.slice(1, -1).trim()\<close>, entered
  with the trimmed text.
\<close>

function unwrap :: "string \<Rightarrow> string" where
  "unwrap s =
     (if startsWith s (CHR ''('') \<and> endsWith s (CHR '')'') then unwrap (trim (slice_1_m1 s)) else s)"
  by pat_completeness auto

termination
proof (relation "measure length")
  show "wf (measure length)"
    by simp
next
  fix s :: string
  assume a: "startsWith s (CHR ''('') \<and> endsWith s (CHR '')'')"
  then have ne: "s \<noteq> []"
    by (auto simp: startsWith_def)
  have "length (trim (slice_1_m1 s)) \<le> length (slice_1_m1 s)"
    unfolding trim_def by (metis length_dropWhile_le length_rev order_trans)
  moreover have "length (slice_1_m1 s) < length s"
    using ne by (cases s) (auto simp: slice_1_m1_def)
  ultimately show "(trim (slice_1_m1 s), s) \<in> measure length"
    by simp
qed

declare unwrap.simps [simp del]

text \<open>\<open>evalWhere\<close>: any OR-part in which every AND-part holds.\<close>

definition evalAnd :: "string \<Rightarrow> row \<Rightarrow> error + bool" where
  "evalAnd orPart r =
     every_e (\<lambda>expr. evalCondition (unwrap (trim expr)) r)
       (splitLogicalOperator (unwrap (trim orPart)) ''AND'')"

definition evalWhere :: "string \<Rightarrow> row \<Rightarrow> error + bool" where
  "evalWhere whereClause r =
     some_e (\<lambda>orPart. evalAnd orPart r) (splitLogicalOperator whereClause ''OR'')"

section \<open>The statements\<close>

text \<open>
  The four statement patterns.  A space in a pattern is the single character SPACE.
  \<^item> \<open>/SELECT (.+?) FROM (\w+)(?: WHERE (.*?))?(?: ORDER BY (\w+)(?: (ASC|DESC))?)?(?: LIMIT (\d+))?$/i\<close>
  \<^item> \<open>/INSERT INTO (\w+)\s*\((.+?)\)\s*VALUES\s*\((.+)\)/i\<close>
  \<^item> \<open>/DELETE FROM (\w+)(?: WHERE (.+))?$/i\<close>
  \<^item> \<open>/UPDATE (\w+)\s+SET\s+(.+?)(?:\s+WHERE\s+(.+))?$/i\<close>
\<close>

definition select_rx :: rx where
  "select_rx = seqs
     [Lit ''SELECT '', Cap 1 (Rep CDot 1 False), Lit '' FROM '', Cap 2 (Rep CWord 1 True),
      Opt (seqs [Lit '' WHERE '', Cap 3 (Rep CDot 0 False)]),
      Opt (seqs [Lit '' ORDER BY '', Cap 4 (Rep CWord 1 True),
                 Opt (seqs [Lit '' '', Cap 5 (Alt (Lit ''ASC'') (Lit ''DESC''))])]),
      Opt (seqs [Lit '' LIMIT '', Cap 6 (Rep CDigit 1 True)]),
      Eol]"

definition insert_rx :: rx where
  "insert_rx = seqs
     [Lit ''INSERT INTO '', Cap 1 (Rep CWord 1 True), Rep CSpace 0 True,
      Lit ''('', Cap 2 (Rep CDot 1 False), Lit '')'', Rep CSpace 0 True,
      Lit ''VALUES'', Rep CSpace 0 True, Lit ''('', Cap 3 (Rep CDot 1 True), Lit '')'']"

definition delete_rx :: rx where
  "delete_rx = seqs
     [Lit ''DELETE FROM '', Cap 1 (Rep CWord 1 True),
      Opt (seqs [Lit '' WHERE '', Cap 2 (Rep CDot 1 True)]),
      Eol]"

definition update_rx :: rx where
  "update_rx = seqs
     [Lit ''UPDATE '', Cap 1 (Rep CWord 1 True), Rep CSpace 1 True, Lit ''SET'', Rep CSpace 1 True,
      Cap 2 (Rep CDot 1 False),
      Opt (seqs [Rep CSpace 1 True, Lit ''WHERE'', Rep CSpace 1 True, Cap 3 (Rep CDot 1 True)]),
      Eol]"

text \<open>
  \<open>const [, columns, table, whereClause, orderField, orderDir, limitStr] = match\<close> and
  its like for the other statements: the captures of the first match, an optional one
  being absent when its group took no part.
\<close>

definition select_match ::
  "string \<Rightarrow> (string \<times> string \<times> string option \<times> string option \<times> string option \<times> string option) option" where
  "select_match sql =
     (case rx_exec select_rx sql of
        None \<Rightarrow> None
      | Some (i, c) \<Rightarrow> Some (grp c 1, grp c 2, c 3, c 4, c 5, c 6))"

definition insert_match :: "string \<Rightarrow> (string \<times> string \<times> string) option" where
  "insert_match sql =
     (case rx_exec insert_rx sql of
        None \<Rightarrow> None
      | Some (i, c) \<Rightarrow> Some (grp c 1, grp c 2, grp c 3))"

definition delete_match :: "string \<Rightarrow> (string \<times> string option) option" where
  "delete_match sql =
     (case rx_exec delete_rx sql of
        None \<Rightarrow> None
      | Some (i, c) \<Rightarrow> Some (grp c 1, c 2))"

definition update_match :: "string \<Rightarrow> (string \<times> string \<times> string option) option" where
  "update_match sql =
     (case rx_exec update_rx sql of
        None \<Rightarrow> None
      | Some (i, c) \<Rightarrow> Some (grp c 1, grp c 2, c 3))"

text \<open>An optional capture in a condition: absent and empty text are both falsy.\<close>

definition truthy :: "string option \<Rightarrow> bool" where
  "truthy c = (case c of None \<Rightarrow> False | Some s \<Rightarrow> s \<noteq> [])"

definition text_of :: "string option \<Rightarrow> string" where
  "text_of c = (case c of None \<Rightarrow> [] | Some s \<Rightarrow> s)"

text \<open>\<open>filter\<close> with a callback that may raise.\<close>

fun filter_e :: "('a \<Rightarrow> error + bool) \<Rightarrow> 'a list \<Rightarrow> error + 'a list" where
  "filter_e f [] = Inr []"
| "filter_e f (x # xs) =
     (case f x of
        Inl e \<Rightarrow> Inl e
      | Inr b \<Rightarrow> (case filter_e f xs of
                   Inl e \<Rightarrow> Inl e
                 | Inr ys \<Rightarrow> Inr (if b then x # ys else ys)))"

text \<open>
  ORDER BY.  \<open>coerceValue\<close> and the comparison function of \<open>select\<close>; \<open>desc\<close> is
  \<open>orderDir?.toUpperCase() === "DESC"\<close>.  \<open>Array.prototype.sort\<close> is stable; for a
  consistent comparison function its result is the stable sorted arrangement, which
  insertion from the right computes (for an inconsistent one the order is left to the
  implementation).
\<close>

definition coerceValue :: "prim \<Rightarrow> prim" where
  "coerceValue v =
     (if v = Null \<or> v = Undefined then v
      else if ToNumber v = NaN then v else Num (ToNumber v))"

definition compare_rows :: "string \<Rightarrow> bool \<Rightarrow> row \<Rightarrow> row \<Rightarrow> int" where
  "compare_rows orderField desc a b =
     (let aVal = coerceValue (field a orderField); bVal = coerceValue (field b orderField)
      in if js_less aVal bVal then (if desc then 1 else - 1)
         else if js_less bVal aVal then (if desc then - 1 else 1)
         else 0)"

fun insert_sorted :: "('a \<Rightarrow> 'a \<Rightarrow> int) \<Rightarrow> 'a \<Rightarrow> 'a list \<Rightarrow> 'a list" where
  "insert_sorted cmp x [] = [x]"
| "insert_sorted cmp x (y # ys) = (if cmp x y \<le> 0 then x # y # ys else y # insert_sorted cmp x ys)"

definition sort_by :: "('a \<Rightarrow> 'a \<Rightarrow> int) \<Rightarrow> 'a list \<Rightarrow> 'a list" where
  "sort_by cmp xs = foldr (insert_sorted cmp) xs []"

text \<open>\<open>columns.split(",")\<close> and the projection of a row on the listed fields.\<close>

fun split_on :: "char \<Rightarrow> string \<Rightarrow> string list" where
  "split_on d [] = [[]]"
| "split_on d (c # cs) =
     (case split_on d cs of
        [] \<Rightarrow> [[c]]
      | p # ps \<Rightarrow> if c = d then [] # p # ps else (c # p) # ps)"

definition project :: "string list \<Rightarrow> row \<Rightarrow> row" where
  "project flds r = foldl (\<lambda>obj f. obj(f := r f)) Map.empty flds"

definition select :: "string \<Rightarrow> store \<Rightarrow> error + row list" where
  "select sql st =
     (case select_match sql of
        None \<Rightarrow> Inl (Error ''Invalid SELECT syntax'')
      | Some (columns, table, whereClause, orderField, orderDir, limitStr) \<Rightarrow>
          (case (if truthy whereClause then filter_e (evalWhere (text_of whereClause)) (load st table)
                 else Inr (load st table)) of
             Inl e \<Rightarrow> Inl e
           | Inr rows \<Rightarrow>
               (let sorted = (if truthy orderField
                              then sort_by (compare_rows (text_of orderField)
                                             (toUpperCase (text_of orderDir) = ''DESC'')) rows
                              else rows);
                    limited = (if truthy limitStr then take (radix_val 10 (text_of limitStr)) sorted
                               else sorted)
                in Inr (if trim columns \<noteq> ''*''
                        then map (project (map trim (split_on (CHR '','') columns))) limited
                        else limited))))"

text \<open>
  INSERT: \<open>columns.forEach((c, i) => (row[c] = values[i]))\<close>; a column beyond the
  values is assigned \<open>undefined\<close>.  The result is what the call returns, or the error
  it raises, and the store after the call.
\<close>

definition nth_opt :: "'a list \<Rightarrow> nat \<Rightarrow> 'a option" where
  "nth_opt xs i = (if i < length xs then Some (xs ! i) else None)"

definition make_row :: "string list \<Rightarrow> string list \<Rightarrow> row" where
  "make_row columns vals =
     foldl (\<lambda>r (c, i). r(c := map_option JStr (nth_opt vals i))) Map.empty
       (zip columns [0 ..< length columns])"

definition insert :: "string \<Rightarrow> store \<Rightarrow> (error + row) \<times> store" where
  "insert sql st =
     (case insert_match sql of
        None \<Rightarrow> (Inl (Error ''Invalid INSERT syntax''), st)
      | Some (table, cols, vals) \<Rightarrow>
          (let columns = splitRespectingQuotes cols (CHR '','');
               vs = map strip_quotes (splitRespectingQuotes vals (CHR '',''));
               r = make_row columns vs
           in (Inr r, save st table (load st table @ [r]))))"

definition delete :: "string \<Rightarrow> store \<Rightarrow> (error + unit) \<times> store" where
  "delete sql st =
     (case delete_match sql of
        None \<Rightarrow> (Inl (Error ''Invalid DELETE syntax''), st)
      | Some (table, whereClause) \<Rightarrow>
          (case (if truthy whereClause
                 then filter_e (\<lambda>r. map_sum id Not (evalWhere (text_of whereClause) r)) (load st table)
                 else Inr []) of
             Inl e \<Rightarrow> (Inl e, st)
           | Inr data \<Rightarrow> (Inr (), save st table data)))"

text \<open>
  UPDATE: the assignments of the SET clause, each cut at its first \<open>=\<close>; then
  \<open>data.map\<close> with the counter.
\<close>

definition index_of :: "char \<Rightarrow> string \<Rightarrow> nat option" where
  "index_of c s = (if c \<in> set s then Some (length (takeWhile (\<lambda>x. x \<noteq> c) s)) else None)"

definition add_pair :: "row \<Rightarrow> string \<Rightarrow> row" where
  "add_pair updates pair =
     (case index_of (CHR ''='') pair of
        None \<Rightarrow> updates
      | Some eqIndex \<Rightarrow>
          updates(trim (take eqIndex pair) \<mapsto> JStr (strip_quotes (trim (drop (eqIndex + 1) pair)))))"

definition set_updates :: "string \<Rightarrow> row" where
  "set_updates setClause = foldl add_pair Map.empty (splitRespectingQuotes setClause (CHR '',''))"

fun update_rows :: "string option \<Rightarrow> row \<Rightarrow> row list \<Rightarrow> error + (row list \<times> nat)" where
  "update_rows whereClause updates [] = Inr ([], 0)"
| "update_rows whereClause updates (r # rs) =
     (case (if \<not> truthy whereClause then Inr True else evalWhere (text_of whereClause) r) of
        Inl e \<Rightarrow> Inl e
      | Inr b \<Rightarrow>
          (case update_rows whereClause updates rs of
             Inl e \<Rightarrow> Inl e
           | Inr (rs', n) \<Rightarrow> Inr (if b then ((r ++ updates) # rs', Suc n) else (r # rs', n))))"

definition update :: "string \<Rightarrow> store \<Rightarrow> (error + nat) \<times> store" where
  "update sql st =
     (case update_match sql of
        None \<Rightarrow> (Inl (Error ''Invalid UPDATE syntax''), st)
      | Some (table, setClause, whereClause) \<Rightarrow>
          (case update_rows whereClause (set_updates setClause) (load st table) of
             Inl e \<Rightarrow> (Inl e, st)
           | Inr (data, n) \<Rightarrow> (Inr n, save st table data)))"

section \<open>Notions used in the statements\<close>

text \<open>
  The leaf conditions a filter is evaluated through: for each OR-part the conditions of
  its AND-parts, as the leaf pattern reads them.
\<close>

definition leaves :: "string \<Rightarrow> (string \<times> string \<times> string) option list list" where
  "leaves whereClause =
     map (\<lambda>orPart. map (\<lambda>expr. cond_match (unwrap (trim expr)))
                       (splitLogicalOperator (unwrap (trim orPart)) ''AND''))
       (splitLogicalOperator whereClause ''OR'')"

definition evalLeaf :: "row \<Rightarrow> (string \<times> string \<times> string) option \<Rightarrow> error + bool" where
  "evalLeaf r m = (case m of None \<Rightarrow> Inr False | Some (fld, op, rawValue) \<Rightarrow> evalOp op rawValue (field r fld))"

text \<open>
  The first match a continuation accepts: the way a backtracking matcher runs, used to
  evaluate \<open>matches\<close> on a given text without listing every match.
\<close>

fun first_of :: "('a \<Rightarrow> 'b option) \<Rightarrow> 'a list \<Rightarrow> 'b option" where
  "first_of k [] = None"
| "first_of k (x # xs) = (case k x of None \<Rightarrow> first_of k xs | Some y \<Rightarrow> Some y)"

definition run :: "rx \<Rightarrow> string \<Rightarrow> caps \<Rightarrow> (nat \<Rightarrow> caps \<Rightarrow> 'b option) \<Rightarrow> 'b option" where
  "run r s cs k = first_of (\<lambda>(n, c). k n c) (matches r s cs)"

text \<open>\<open>lit_match\<close> character by character, stopping at the first difference.\<close>

fun ci_prefix :: "string \<Rightarrow> string \<Rightarrow> bool" where
  "ci_prefix [] s = True"
| "ci_prefix (a # w) [] = False"
| "ci_prefix (a # w) (x # s) =
     (if a = x then ci_prefix w s
      else if canonicalize x = canonicalize a then ci_prefix w s else False)"

text \<open>An expression without the end-of-text assertion.\<close>

fun anchor_free :: "rx \<Rightarrow> bool" where
  "anchor_free (Seq a b) = (anchor_free a \<and> anchor_free b)"
| "anchor_free (Alt a b) = (anchor_free a \<and> anchor_free b)"
| "anchor_free (Opt a) = anchor_free a"
| "anchor_free (Cap i a) = anchor_free a"
| "anchor_free Eol = False"
| "anchor_free _ = True"

text \<open>
  LIKE as the specification words it, with the line terminators left out of what a
  wildcard stands for: \<open>%\<close> is any run of characters that are not line terminators,
  \<open>_\<close> is one such character, any other character is itself up to case, and the whole
  value has to be matched.
\<close>

fun like_sem :: "string \<Rightarrow> string \<Rightarrow> bool" where
  "like_sem [] s = (s = [])"
| "like_sem (p # ps) [] = (p = CHR ''%'' \<and> like_sem ps [])"
| "like_sem (p # ps) (x # xs) =
     (if p = CHR ''%'' then like_sem ps (x # xs) \<or> (\<not> is_line_terminator x \<and> like_sem (p # ps) xs)
      else if p = CHR ''_'' then \<not> is_line_terminator x \<and> like_sem ps xs
      else canonicalize x = canonicalize p \<and> like_sem ps xs)"

text \<open>The expression one character of a LIKE value stands for in the compiled pattern.\<close>

definition like_item :: "char \<Rightarrow> rx" where
  "like_item p =
     (if p = CHR ''%'' then Rep CDot 0 True
      else if p = CHR ''_'' then Cls CDot
      else Cls (CChar p))"

text \<open>Where the first match of an expression starts, and the text it matches.\<close>

definition match_span :: "rx \<Rightarrow> string \<Rightarrow> (nat \<times> string) option" where
  "match_span r s = map_option (\<lambda>(i, c). (i, grp c 0)) (rx_exec r s)"





text \<open>The pattern text one character of a LIKE value compiles to.\<close>

definition like_char :: "char \<Rightarrow> string" where
  "like_char c = replace_underscore (replace_percent (escape_regex [c]))"

section \<open>The LIKE pattern is always a well-formed expression\<close>

lemma syntax_chars_iff:
  "c \<in> set syntax_chars \<longleftrightarrow> c \<in> {CHR ''.'', CHR ''*'', CHR ''+'', CHR ''?'', CHR ''^'', CHR ''$'',
     CHR ''{'', CHR ''}'', CHR ''('', CHR '')'', CHR ''|'', CHR ''['', CHR '']'', CHR 0x5C}"
  by (auto simp: syntax_chars_def backslash_def)

lemma like_char_cases:
  "like_char c =
     (if c \<in> set syntax_chars then [backslash, c]
      else if c = CHR ''%'' then ''.*''
      else if c = CHR ''_'' then ''.''
      else [c])"
  by (auto simp: like_char_def escape_regex_def replace_percent_def replace_underscore_def
      syntax_chars_iff backslash_def)

lemma compile_Cons:
  "replace_underscore (replace_percent (escape_regex (c # v))) =
     like_char c @ replace_underscore (replace_percent (escape_regex v))"
  by (simp add: like_char_def escape_regex_def replace_percent_def replace_underscore_def)

lemma compile_Nil: "replace_underscore (replace_percent (escape_regex [])) = []"
  by (simp add: escape_regex_def replace_percent_def replace_underscore_def)

lemma compile_head:
  "replace_underscore (replace_percent (escape_regex v)) @ ''$'' = q # rest \<Longrightarrow> q \<noteq> CHR ''*''"
  by (cases v) (auto simp: compile_Cons compile_Nil like_char_cases syntax_chars_iff backslash_def
      split: if_splits)

lemma rx_atoms_compile:
  "rx_atoms (replace_underscore (replace_percent (escape_regex v)) @ ''$'') = Some (map like_item v @ [Eol])"
proof (induction v)
  case Nil
  show ?case by (simp add: compile_Nil)
next
  case (Cons c v)
  let ?rest = "replace_underscore (replace_percent (escape_regex v)) @ ''$''"
  obtain q rest' where r: "?rest = q # rest'"
    by (cases ?rest) auto
  then have q: "q \<noteq> CHR ''*''"
    using compile_head by blast
  show ?case
    using Cons.IH r q
    by (auto simp: compile_Cons like_char_cases like_item_def syntax_chars_iff backslash_def)
qed

lemma rx_parse_like: "rx_parse (like_pattern v) = Some (seqs (map like_item v @ [Eol]))"
  by (simp add: rx_parse_def like_pattern_def rx_atoms_compile)

lemma evalOp_total: "\<exists>b. evalOp op raw a = Inr b"
  by (auto simp: evalOp_def rx_parse_like)

lemma evalCondition_total: "\<exists>b. evalCondition e r = Inr b"
  by (auto simp: evalCondition_def evalOp_total split: option.splits)

section \<open>The WHERE evaluator never raises\<close>

lemma some_e_total:
  "(\<And>x. \<exists>b. f x = Inr b) \<Longrightarrow> some_e f xs = Inr (\<exists>x\<in>set xs. f x = Inr True)"
proof (induction xs)
  case Nil
  show ?case by simp
next
  case (Cons x xs)
  obtain b where "f x = Inr b" using Cons.prems by blast
  then show ?case using Cons by auto
qed

lemma every_e_total:
  "(\<And>x. \<exists>b. f x = Inr b) \<Longrightarrow> every_e f xs = Inr (\<forall>x\<in>set xs. f x = Inr True)"
proof (induction xs)
  case Nil
  show ?case by simp
next
  case (Cons x xs)
  obtain b where "f x = Inr b" using Cons.prems by blast
  then show ?case using Cons by auto
qed

lemma evalAnd_eq:
  "evalAnd p r = Inr (\<forall>e\<in>set (splitLogicalOperator (unwrap (trim p)) ''AND'').
                        evalCondition (unwrap (trim e)) r = Inr True)"
  unfolding evalAnd_def by (rule every_e_total) (rule evalCondition_total)

lemma evalWhere_eq:
  "evalWhere w r = Inr (\<exists>p\<in>set (splitLogicalOperator w ''OR'').
                          \<forall>e\<in>set (splitLogicalOperator (unwrap (trim p)) ''AND'').
                            evalCondition (unwrap (trim e)) r = Inr True)"
proof -
  have "evalWhere w r = Inr (\<exists>p\<in>set (splitLogicalOperator w ''OR''). evalAnd p r = Inr True)"
    unfolding evalWhere_def by (rule some_e_total) (simp add: evalAnd_eq)
  then show ?thesis by (simp add: evalAnd_eq)
qed

lemma some_e_map: "some_e f (map g xs) = some_e (\<lambda>x. f (g x)) xs"
  by (induction xs) (auto split: sum.splits)

lemma every_e_map: "every_e f (map g xs) = every_e (\<lambda>x. f (g x)) xs"
  by (induction xs) (auto split: sum.splits)

lemma evalWhere_leaves: "evalWhere w r = some_e (every_e (evalLeaf r)) (leaves w)"
  by (simp add: evalWhere_def evalAnd_def leaves_def some_e_map every_e_map evalLeaf_def
      evalCondition_def)

section \<open>Evaluating the matcher\<close>

lemma first_of_append: "first_of k (xs @ ys) = (case first_of k xs of None \<Rightarrow> first_of k ys | Some y \<Rightarrow> Some y)"
  by (induction xs) (auto split: option.splits)

lemma first_of_map: "first_of k (map g xs) = first_of (\<lambda>x. k (g x)) xs"
  by (induction xs) (auto split: option.splits)

lemma first_of_concat_map: "first_of k (concat (map g xs)) = first_of (\<lambda>x. first_of k (g x)) xs"
  by (induction xs) (auto simp: first_of_append split: option.splits)

lemma lit_match_code [code]: "lit_match w s = ci_prefix w s"
proof (induction w s rule: ci_prefix.induct)
  case (1 s)
  show ?case by (simp add: lit_match_def)
next
  case (2 a w)
  show ?case by (simp add: lit_match_def)
next
  case (3 a w x s)
  then show ?case by (auto simp: lit_match_def)
qed

lemma run_Cls [code]:
  "run (Cls c) s cs k = (case s of [] \<Rightarrow> None | x # _ \<Rightarrow> if cc_match c x then k 1 cs else None)"
  by (auto simp: run_def split: list.splits option.splits)

lemma run_Lit [code]: "run (Lit w) s cs k = (if lit_match w s then k (length w) cs else None)"
  by (auto simp: run_def split: option.splits)

lemma run_Rep [code]: "run (Rep c mn g) s cs k = first_of (\<lambda>n. k n cs) (rep_counts c mn g s)"
  by (simp add: run_def first_of_map)

lemma run_Seq [code]:
  "run (Seq a b) s cs k = run a s cs (\<lambda>n c1. run b (drop n s) c1 (\<lambda>j c2. k (n + j) c2))"
  by (simp add: run_def first_of_concat_map first_of_map case_prod_unfold)

lemma run_Alt [code]:
  "run (Alt a b) s cs k = (case run a s cs k of None \<Rightarrow> run b s cs k | Some y \<Rightarrow> Some y)"
  unfolding run_def by (simp add: first_of_append)

lemma run_Opt [code]:
  "run (Opt a) s cs k = (case run a s cs k of None \<Rightarrow> k 0 cs | Some y \<Rightarrow> Some y)"
  by (auto simp: run_def first_of_append split: option.splits)

lemma run_Cap [code]:
  "run (Cap i a) s cs k = run a s cs (\<lambda>n c1. k n (c1(i \<mapsto> take n s)))"
  by (simp add: run_def first_of_map case_prod_unfold)

lemma run_Eol [code]: "run Eol s cs k = (if s = [] then k 0 cs else None)"
  by (auto simp: run_def split: option.splits)

lemma run_head:
  "run r s cs (\<lambda>n c. Some (n, c)) = (case matches r s cs of [] \<Rightarrow> None | x # _ \<Rightarrow> Some x)"
  by (cases "matches r s cs") (auto simp: run_def)

lemma rx_search_code [code]:
  "rx_search r i [] =
     (case run r [] Map.empty (\<lambda>n c. Some (n, c)) of
        None \<Rightarrow> None
      | Some (k, c) \<Rightarrow> Some (i, c(0 \<mapsto> [])))"
  "rx_search r i (x # xs) =
     (case run r (x # xs) Map.empty (\<lambda>n c. Some (n, c)) of
        None \<Rightarrow> rx_search r (Suc i) xs
      | Some (k, c) \<Rightarrow> Some (i, c(0 \<mapsto> take k (x # xs))))"
  by (auto simp: run_head split: list.splits)

lemma matches_le: "(k, c) \<in> set (matches r s cs) \<Longrightarrow> k \<le> length s"
proof (induction r arbitrary: s cs k c)
  case (Cls x)
  then show ?case by (auto split: list.splits if_splits)
next
  case (Rep x1 x2 x3)
  have "length (takeWhile (cc_match x1) s) \<le> length s"
    by (rule length_takeWhile_le)
  with Rep show ?case by (auto simp: rep_counts_def Let_def split: if_splits)
next
  case (Lit x)
  then show ?case by (auto simp: lit_match_def split: if_splits)
next
  case (Seq r1 r2)
  from Seq.prems obtain k1 c1 k2 where
    a: "(k1, c1) \<in> set (matches r1 s cs)" and b: "(k2, c) \<in> set (matches r2 (drop k1 s) c1)" and k: "k = k1 + k2"
    by auto
  from Seq.IH(1)[OF a] Seq.IH(2)[OF b] k show ?case by simp
next
  case (Alt r1 r2)
  then show ?case by auto
next
  case (Opt r)
  then show ?case by auto
next
  case (Cap x1 r)
  then show ?case by auto
next
  case Eol
  then show ?case by (auto split: if_splits)
qed

lemma rx_search_ge: "rx_search r i s = Some (j, c) \<Longrightarrow> i \<le> j"
proof (induction s arbitrary: i)
  case Nil
  then show ?case by (auto split: list.splits)
next
  case (Cons x xs)
  then show ?case by (fastforce split: list.splits)
qed

lemma rx_search_unfold:
  "rx_search r i s =
     (case matches r s Map.empty of
        [] \<Rightarrow> (case s of [] \<Rightarrow> None | x # xs \<Rightarrow> rx_search r (Suc i) xs)
      | (k, c) # _ \<Rightarrow> Some (i, c(0 \<mapsto> take k s)))"
  by (cases s) (auto split: list.splits)

lemma operator_at_code [code]:
  "operator_at r s = run r s Map.empty (\<lambda>n c. Some n)"
proof (cases "matches r s Map.empty")
  case Nil
  have "rx_search r 0 s = None \<or> (\<exists>j c. rx_search r 0 s = Some (j, c) \<and> 0 < j)"
  proof (cases s)
    case Nil
    then show ?thesis using \<open>matches r s Map.empty = []\<close> by simp
  next
    case (Cons x xs)
    then have e: "rx_search r 0 s = rx_search r (Suc 0) xs"
      using \<open>matches r s Map.empty = []\<close> by simp
    show ?thesis
    proof (cases "rx_search r (Suc 0) xs")
      case None
      then show ?thesis using e by simp
    next
      case (Some p)
      obtain j c where "p = (j, c)" by (cases p)
      with Some rx_search_ge[of r "Suc 0" xs j c] e show ?thesis by auto
    qed
  qed
  then show ?thesis using Nil
    by (auto simp: operator_at_def rx_exec_def run_def)
next
  case (Cons p ps)
  obtain k c where p: "p = (k, c)" by (cases p)
  have "k \<le> length s"
    using matches_le[of k c r s Map.empty] Cons p by simp
  then show ?thesis using Cons p
    by (cases s) (auto simp: operator_at_def rx_exec_def run_def grp_def)
qed

section \<open>What a LIKE pattern matches\<close>

lemma seqs_Cons: "rs \<noteq> [] \<Longrightarrow> seqs (r # rs) = Seq r (seqs rs)"
  by (cases rs) auto

lemma matches_Seq_nonempty:
  "matches (Seq a b) s cs \<noteq> [] \<longleftrightarrow> (\<exists>(k, c1)\<in>set (matches a s cs). matches b (drop k s) c1 \<noteq> [])"
  by (simp add: case_prod_unfold)

lemma like_sem_percent:
  "like_sem (CHR ''%'' # v) s \<longleftrightarrow>
     (\<exists>k \<le> length (takeWhile (\<lambda>x. \<not> is_line_terminator x) s). like_sem v (drop k s))"
proof (induction s)
  case Nil
  show ?case by simp
next
  case (Cons x xs)
  show ?case
  proof (cases "is_line_terminator x")
    case True
    then show ?thesis by simp
  next
    case False
    have "(\<exists>k \<le> Suc (length (takeWhile (\<lambda>x. \<not> is_line_terminator x) xs)). like_sem v (drop k (x # xs)))
        \<longleftrightarrow> like_sem v (x # xs) \<or> (\<exists>j \<le> length (takeWhile (\<lambda>x. \<not> is_line_terminator x) xs). like_sem v (drop j xs))"
      (is "?L \<longleftrightarrow> ?R")
    proof
      assume ?L
      then obtain k where k: "k \<le> Suc (length (takeWhile (\<lambda>x. \<not> is_line_terminator x) xs))"
        and l: "like_sem v (drop k (x # xs))" by blast
      show ?R
      proof (cases k)
        case 0
        with l show ?thesis by simp
      next
        case (Suc j)
        with k l show ?thesis by auto
      qed
    next
      assume ?R
      then show ?L
      proof
        assume "like_sem v (x # xs)"
        then have "like_sem v (drop 0 (x # xs))" by simp
        then show ?L by blast
      next
        assume "\<exists>j \<le> length (takeWhile (\<lambda>x. \<not> is_line_terminator x) xs). like_sem v (drop j xs)"
        then obtain j where "j \<le> length (takeWhile (\<lambda>x. \<not> is_line_terminator x) xs)" "like_sem v (drop j xs)"
          by blast
        then have "Suc j \<le> Suc (length (takeWhile (\<lambda>x. \<not> is_line_terminator x) xs))"
          "like_sem v (drop (Suc j) (x # xs))" by simp_all
        then show ?L by blast
      qed
    qed
    with False Cons show ?thesis by simp
  qed
qed

lemma set_rep_counts_greedy0: "set (rep_counts c 0 True s) = {k. k \<le> length (takeWhile (cc_match c) s)}"
  by (auto simp: rep_counts_def Let_def)

lemma matches_like_items:
  "matches (seqs (map like_item v @ [Eol])) s cs \<noteq> [] \<longleftrightarrow> like_sem v s"
proof (induction v arbitrary: s cs)
  case Nil
  show ?case by simp
next
  case (Cons p v)
  have sq: "seqs (map like_item (p # v) @ [Eol]) = Seq (like_item p) (seqs (map like_item v @ [Eol]))"
    by (simp add: seqs_Cons)
  show ?case
  proof (cases "p = CHR ''%''")
    case True
    have dot: "cc_match CDot = (\<lambda>x. \<not> is_line_terminator x)"
      by (rule ext) simp
    show ?thesis
      unfolding sq matches_Seq_nonempty
      using True
      by (auto simp: like_item_def like_sem_percent Cons.IH set_rep_counts_greedy0 dot)
  next
    case False
    show ?thesis
      unfolding sq matches_Seq_nonempty
      using False
      by (cases s) (auto simp: like_item_def Cons.IH)
  qed
qed

lemma evalOp_like:
  "toUpperCase op = ''LIKE'' \<Longrightarrow>
     evalOp op raw actual = Inr (like_sem (strip_quotes raw) (ToString actual))"
  by (simp add: evalOp_def rx_parse_like rx_test_def matches_like_items)

lemmas evalOp_simps = evalLeaf_def evalOp_def toUpperCase_def code_def strip_quotes_def
  strip_ends_def drop_last_if_def is_quote_def dquote_def squote_def


section \<open>Numbers beyond the range of a double, and the records that are written as read\<close>

lemma bitlen_gt: "2 ^ n \<le> m \<Longrightarrow> n < bitlen m"
proof (induction n arbitrary: m)
  case 0
  then show ?case by (subst bitlen.simps) auto
next
  case (Suc n)
  then have "2 ^ n \<le> m div 2" by simp
  then have "n < bitlen (m div 2)" by (rule Suc.IH)
  moreover have "m \<noteq> 0"
  proof
    assume "m = 0"
    with Suc.prems show False by simp
  qed
  ultimately show ?case by (subst bitlen.simps) simp
qed

lemma floor_log_ge:
  "int (len (nat (fst (quotient_of a)))) - int (len (nat (snd (quotient_of a)))) - 1 \<le> floor_log len b a"
  by (simp add: floor_log_def Let_def case_prod_unfold)

lemma to_double_overflow: "0 < q \<Longrightarrow> 1023 < floor_log bitlen 2 q \<Longrightarrow> to_double q = PInf"
  by (simp add: to_double_def Let_def)

lemma to_double_of_nat_overflow:
  assumes "2 ^ k \<le> n" "1024 < k"
  shows "to_double (of_nat n) = PInf"
proof -
  have b: "k < bitlen n" using assms(1) by (rule bitlen_gt)
  have q: "quotient_of (of_nat n) = (int n, 1)"
    using quotient_of_int [of "int n"] by simp
  have o: "bitlen (Suc 0) = 1" by (simp add: bitlen.simps)
  have "int (bitlen n) - 1 - 1 \<le> floor_log bitlen 2 (of_nat n)"
    using floor_log_ge [of bitlen "of_nat n" 2] by (simp add: q o)
  then have f: "1023 < floor_log bitlen 2 (of_nat n)"
    using b assms(2) by simp
  have "0 < n" using assms(1) by (cases n) auto
  then show ?thesis using f by (intro to_double_overflow) auto
qed

lemma stringify_row_finite:
  "(\<forall>f q. r f = Some (JNum q) \<longrightarrow> (\<exists>d. to_double q = Fin d)) \<Longrightarrow> stringify_row r = r"
proof (rule ext)
  fix f
  assume a: "\<forall>f q. r f = Some (JNum q) \<longrightarrow> (\<exists>d. to_double q = Fin d)"
  show "stringify_row r f = r f"
  proof (cases "r f")
    case None
    then show ?thesis by (simp add: stringify_row_def)
  next
    case (Some v)
    with a show ?thesis by (cases v) (fastforce simp: stringify_row_def)+
  qed
qed

lemma stringify_rows_finite:
  "\<forall>r\<in>set rows. \<forall>f q. r f = Some (JNum q) \<longrightarrow> (\<exists>d. to_double q = Fin d) \<Longrightarrow>
     map stringify_row rows = rows"
  by (induction rows) (simp_all add: stringify_row_finite)

lemma stringify_row_text:
  "stringify_row (r(f \<mapsto> JStr v)) = (stringify_row r)(f \<mapsto> JStr v)"
  by (rule ext) (simp add: stringify_row_def)

lemma stringify_row_empty: "stringify_row Map.empty = Map.empty"
  by (rule ext) (simp add: stringify_row_def)

section \<open>Precedence of AND over OR\<close>

lemma leaves_berlin_paris:
  \<open>leaves ''(city = "Berlin" AND age > 30) OR city = "Paris"'' =
     [[Some (''city'', ''='', ''"Berlin"''), Some (''age'', ''>'', ''30'')],
      [Some (''city'', ''='', ''"Paris"'')]]\<close>
  by code_simp

lemma parseFloat_str_samples:
  "parseFloat_str ''30'' = Fin 30" "parseFloat_str ''25'' = Fin 25"
  "parseFloat_str ''35'' = Fin 35" "parseFloat_str ''28'' = Fin 28"
  by code_simp+

text \<open>
  C1.  WHERE evaluation is a disjunction over the OR-parts of the filter of the
  conjunction over the AND-parts of each; and for every record the filter
  \<open>(city = "Berlin" AND age > 30) OR city = "Paris"\<close> holds exactly when the city equals
  Berlin and the age, read as a number, exceeds 30, or the city equals Paris.
\<close>

theorem where_is_or_of_ands:
  \<open>evalWhere w r =
      Inr (\<exists>orPart\<in>set (splitLogicalOperator w ''OR'').
             \<forall>expr\<in>set (splitLogicalOperator (unwrap (trim orPart)) ''AND'').
               evalCondition (unwrap (trim expr)) r = Inr True)
    \<and> evalWhere ''(city = "Berlin" AND age > 30) OR city = "Paris"'' r =
      Inr ((loose_eq_str (field r ''city'') ''Berlin''
              \<and> num_greater (parseFloat (field r ''age'')) (Fin 30))
           \<or> loose_eq_str (field r ''city'') ''Paris'')\<close>
proof
  show \<open>evalWhere w r =
      Inr (\<exists>orPart\<in>set (splitLogicalOperator w ''OR'').
             \<forall>expr\<in>set (splitLogicalOperator (unwrap (trim orPart)) ''AND'').
               evalCondition (unwrap (trim expr)) r = Inr True)\<close>
    by (rule evalWhere_eq)
next
  show \<open>evalWhere ''(city = "Berlin" AND age > 30) OR city = "Paris"'' r =
      Inr ((loose_eq_str (field r ''city'') ''Berlin''
              \<and> num_greater (parseFloat (field r ''age'')) (Fin 30))
           \<or> loose_eq_str (field r ''city'') ''Paris'')\<close>
    by (simp add: evalWhere_leaves leaves_berlin_paris evalOp_simps parseFloat_str_samples)
qed

theorem where_is_or_of_ands_witness:
  \<open>map (evalWhere ''(city = "Berlin" AND age > 30) OR city = "Paris"'')
      [[''city'' \<mapsto> JStr ''Berlin'', ''age'' \<mapsto> JStr ''25''],
       [''city'' \<mapsto> JStr ''Paris'', ''age'' \<mapsto> JStr ''30''],
       [''city'' \<mapsto> JStr ''Berlin'', ''age'' \<mapsto> JStr ''35''],
       [''city'' \<mapsto> JStr ''London'', ''age'' \<mapsto> JStr ''28'']]
    = [Inr False, Inr True, Inr True, Inr False]\<close>
  using where_is_or_of_ands [of \<open>[]\<close> \<open>[''city'' \<mapsto> JStr ''Berlin'', ''age'' \<mapsto> JStr ''25'']\<close>]
    where_is_or_of_ands [of \<open>[]\<close> \<open>[''city'' \<mapsto> JStr ''Paris'', ''age'' \<mapsto> JStr ''30'']\<close>]
    where_is_or_of_ands [of \<open>[]\<close> \<open>[''city'' \<mapsto> JStr ''Berlin'', ''age'' \<mapsto> JStr ''35'']\<close>]
    where_is_or_of_ands [of \<open>[]\<close> \<open>[''city'' \<mapsto> JStr ''London'', ''age'' \<mapsto> JStr ''28'']\<close>]
  by (simp add: field_def parseFloat_def parseFloat_str_samples num_greater_def)

section \<open>Lenient evaluation\<close>

lemma leaves_unclosed:
  \<open>leaves ''(a=1'' = [[Some (''a'', ''='', ''1'')]]\<close>
  by code_simp

lemma leaves_nested:
  \<open>leaves ''(a=1 AND (b=2 OR (c=3 AND d=4)))'' = [[Some (''a'', ''='', ''1''), Some (''b'', ''='', ''2'')]]\<close>
  by code_simp

lemma cond_match_no_leaf: \<open>cond_match ''city is Berlin'' = None\<close>
  by code_simp

text \<open>
  C2, as stated, fails: a filter with an unclosed parenthesis and a filter nested three
  levels deep both evaluate to true on a record that satisfies the leaf conditions the
  evaluator reads from them.
\<close>

theorem lenient_false_counterexample:
  \<open>evalWhere ''(a=1'' [''a'' \<mapsto> JStr ''1''] = Inr True
    \<and> evalWhere ''(a=1 AND (b=2 OR (c=3 AND d=4)))'' [''a'' \<mapsto> JStr ''1'', ''b'' \<mapsto> JStr ''2''] = Inr True\<close>
  by (simp add: evalWhere_leaves leaves_unclosed leaves_nested evalOp_simps field_def)

text \<open>
  C2, amended.  For every filter and every record WHERE evaluation returns a boolean
  and raises nothing, and a leaf text in which the leaf pattern finds no
  field-operator-value condition evaluates to false.
\<close>

theorem where_never_raises:
  "(\<exists>b. evalWhere w r = Inr b) \<and> (cond_match expr = None \<longrightarrow> evalCondition expr r = Inr False)"
  by (simp add: evalWhere_eq evalCondition_def)

theorem where_never_raises_witness:
  \<open>(\<exists>b. evalWhere ''(a=1'' [''a'' \<mapsto> JStr ''1''] = Inr b)
    \<and> cond_match ''city is Berlin'' = None
    \<and> evalCondition ''city is Berlin'' [''a'' \<mapsto> JStr ''1''] = Inr False\<close>
  using where_never_raises [of \<open>''(a=1''\<close> \<open>[''a'' \<mapsto> JStr ''1'']\<close> \<open>''city is Berlin''\<close>]
  by (simp add: cond_match_no_leaf)

section \<open>LIKE\<close>

lemma cond_match_like: \<open>cond_match ''t LIKE "a%b"'' = Some (''t'', ''LIKE'', ''"a%b"'')\<close>
  by code_simp

text \<open>
  C3.  The compiled pattern is anchored, compares letters up to case and treats every
  character but \<open>%\<close> and \<open>_\<close> literally (lemma \<open>evalOp_like\<close>), but its wildcards are
  the dot of the expression language, which no line terminator matches: on the field
  value \<open>a\<close>, LF, \<open>b\<close> the condition \<open>t LIKE "a%b"\<close> is false, while it is true on
  \<open>a b\<close> and on \<open>ab\<close>.
\<close>

theorem like_percent_skips_line_terminators:
  \<open>evalCondition ''t LIKE "a%b"'' [''t'' \<mapsto> JStr [CHR ''a'', CHR 0x0A, CHR ''b'']] = Inr False
    \<and> evalCondition ''t LIKE "a%b"'' [''t'' \<mapsto> JStr ''a b''] = Inr True
    \<and> evalCondition ''t LIKE "a%b"'' [''t'' \<mapsto> JStr ''ab''] = Inr True\<close>
  by (simp add: evalCondition_def cond_match_like evalOp_like toUpperCase_def code_def field_def
      strip_quotes_def strip_ends_def drop_last_if_def is_quote_def dquote_def squote_def
      is_line_terminator_def canonicalize_def)

section \<open>The quote-aware splitter\<close>

lemma quote_not_space: "is_quote q \<Longrightarrow> \<not> is_space q"
  by (auto simp: is_quote_def is_space_def dquote_def squote_def code_def)

lemma trim_id: "s \<noteq> [] \<Longrightarrow> \<not> is_space (hd s) \<Longrightarrow> \<not> is_space (last s) \<Longrightarrow> trim s = s"
proof -
  assume a: "s \<noteq> []" "\<not> is_space (hd s)" "\<not> is_space (last s)"
  then have "dropWhile is_space s = s"
    by (cases s) auto
  moreover have "dropWhile is_space (rev s) = rev s"
    using a by (cases "rev s") (auto simp: last_rev [symmetric] hd_rev)
  ultimately show ?thesis by (simp add: trim_def)
qed

lemma qstep_inside:
  "inQuotes st \<Longrightarrow> quoteChar st = [q] \<Longrightarrow> q \<notin> set body \<Longrightarrow>
     foldl (qstep d) st body = st\<lparr>current := current st @ body\<rparr>"
proof (induction body arbitrary: st)
  case Nil
  show ?case by simp
next
  case (Cons c body)
  have step: "qstep d st c = st\<lparr>current := current st @ [c]\<rparr>"
    using Cons.prems by (auto simp: qstep_def)
  show ?case
    using Cons.prems by (simp add: step Cons.IH)
qed

lemma qstep_span:
  assumes "is_quote q" "q \<notin> set body" "\<not> inQuotes st"
  shows "foldl (qstep d) st (q # body @ [q]) =
           st\<lparr>inQuotes := False, quoteChar := [], current := current st @ q # body @ [q]\<rparr>"
proof -
  let ?s1 = "st\<lparr>inQuotes := True, quoteChar := [q], current := current st @ [q]\<rparr>"
  have 1: "qstep d st q = ?s1"
    using assms by (simp add: qstep_def)
  have 2: "foldl (qstep d) ?s1 body = ?s1\<lparr>current := current ?s1 @ body\<rparr>"
    using assms by (intro qstep_inside) auto
  have 3: "qstep d (?s1\<lparr>current := current ?s1 @ body\<rparr>) q =
      st\<lparr>inQuotes := False, quoteChar := [], current := current st @ q # body @ [q]\<rparr>"
    using assms by (simp add: qstep_def)
  show ?thesis
    using 3 by (simp add: 1 2)
qed

lemma qstep_open:
  assumes "is_quote q" "q \<notin> set body" "\<not> inQuotes st"
  shows "foldl (qstep d) st (q # body) =
           st\<lparr>inQuotes := True, quoteChar := [q], current := current st @ q # body\<rparr>"
proof -
  let ?s1 = "st\<lparr>inQuotes := True, quoteChar := [q], current := current st @ [q]\<rparr>"
  have 1: "qstep d st q = ?s1"
    using assms by (simp add: qstep_def)
  have 2: "foldl (qstep d) ?s1 body = ?s1\<lparr>current := current ?s1 @ body\<rparr>"
    using assms by (intro qstep_inside) auto
  show ?thesis
    by (simp add: 1 2)
qed

lemma insert_match_smith:
  \<open>insert_match ''INSERT INTO users (id, name) VALUES (1, "Smith, John")'' =
     Some (''users'', ''id, name'', ''1, "Smith, John"'')\<close>
  by code_simp

lemma split_smith:
  \<open>splitRespectingQuotes ''id, name'' (CHR '','') = [''id'', ''name'']\<close>
  \<open>map strip_quotes (splitRespectingQuotes ''1, "Smith, John"'' (CHR '','')) = [''1'', ''Smith, John'']\<close>
  \<open>splitRespectingQuotes ''a, b, '' (CHR '','') = [''a'', ''b'']\<close>
  by code_simp+

lemma make_row_two: "make_row [a, b] [x, y] = Map.empty(a \<mapsto> JStr x, b \<mapsto> JStr y)"
  by (simp add: make_row_def nth_opt_def)

text \<open>
  C4.  From a state outside quotes, a span that opens and closes with the same quote
  character and does not contain it in between goes whole into the current segment,
  whatever delimiters it holds, and so does a span that opens with a quote character
  and never closes; a text that is one quoted span is one segment; the last segment is
  kept only when it is not empty after trimming; and
  \<open>INSERT INTO users (id, name) VALUES (1, "Smith, John")\<close> appends the record whose
  \<open>name\<close> is \<open>Smith, John\<close>.
\<close>

theorem quoted_span_is_atomic:
  \<open>(is_quote q \<and> q \<notin> set body \<and> \<not> inQuotes st \<longrightarrow>
       foldl (qstep d) st (q # body @ [q]) =
         st\<lparr>inQuotes := False, quoteChar := [], current := current st @ q # body @ [q]\<rparr>
       \<and> foldl (qstep d) st (q # body) =
         st\<lparr>inQuotes := True, quoteChar := [q], current := current st @ q # body\<rparr>)
    \<and> (is_quote q \<and> q \<notin> set body \<longrightarrow> splitRespectingQuotes (q # body @ [q]) d = [q # body @ [q]])
    \<and> qfinish st = (if trim (current st) = [] then result st else result st @ [trim (current st)])
    \<and> insert ''INSERT INTO users (id, name) VALUES (1, "Smith, John")'' store =
        (Inr [''id'' \<mapsto> JStr ''1'', ''name'' \<mapsto> JStr ''Smith, John''],
         save store ''users'' (load store ''users'' @ [[''id'' \<mapsto> JStr ''1'', ''name'' \<mapsto> JStr ''Smith, John'']]))\<close>
proof (intro conjI impI)
  assume "is_quote q \<and> q \<notin> set body \<and> \<not> inQuotes st"
  then show "foldl (qstep d) st (q # body @ [q]) =
         st\<lparr>inQuotes := False, quoteChar := [], current := current st @ q # body @ [q]\<rparr>"
    using qstep_span by blast
next
  assume "is_quote q \<and> q \<notin> set body \<and> \<not> inQuotes st"
  then show "foldl (qstep d) st (q # body) =
         st\<lparr>inQuotes := True, quoteChar := [q], current := current st @ q # body\<rparr>"
    using qstep_open by blast
next
  assume a: "is_quote q \<and> q \<notin> set body"
  then have "foldl (qstep d) qinit (q # body @ [q]) =
      qinit\<lparr>inQuotes := False, quoteChar := [], current := current qinit @ q # body @ [q]\<rparr>"
    by (intro qstep_span) (auto simp: qinit_def)
  moreover have "trim (q # body @ [q]) = q # body @ [q]"
    using a by (intro trim_id) (auto simp: quote_not_space)
  ultimately show "splitRespectingQuotes (q # body @ [q]) d = [q # body @ [q]]"
    by (simp add: splitRespectingQuotes_def qfinish_def qinit_def)
next
  show "qfinish st = (if trim (current st) = [] then result st else result st @ [trim (current st)])"
    by (simp add: qfinish_def)
next
  show \<open>insert ''INSERT INTO users (id, name) VALUES (1, "Smith, John")'' store =
        (Inr [''id'' \<mapsto> JStr ''1'', ''name'' \<mapsto> JStr ''Smith, John''],
         save store ''users'' (load store ''users'' @ [[''id'' \<mapsto> JStr ''1'', ''name'' \<mapsto> JStr ''Smith, John'']]))\<close>
    by (simp add: insert_def insert_match_smith split_smith make_row_two Let_def)
qed

theorem quoted_span_is_atomic_witness:
  \<open>is_quote dquote \<and> dquote \<notin> set ''Smith, John'' \<and> \<not> inQuotes qinit
    \<and> splitRespectingQuotes ''"Smith, John"'' (CHR '','') = [''"Smith, John"'']
    \<and> splitRespectingQuotes ''a, b, '' (CHR '','') = [''a'', ''b'']
    \<and> load (snd (insert ''INSERT INTO users (id, name) VALUES (1, "Smith, John")'' Map.empty)) ''users''
        = [[''id'' \<mapsto> JStr ''1'', ''name'' \<mapsto> JStr ''Smith, John'']]\<close>
  using quoted_span_is_atomic [of dquote \<open>''Smith, John''\<close> qinit \<open>CHR '',''\<close> Map.empty]
  by (simp add: is_quote_def dquote_def qinit_def split_smith load_def save_def
      stringify_row_text stringify_row_empty)

section \<open>OR commutes\<close>

lemma leaves_a_or_b:
  \<open>leaves ''a=1 OR b=2'' = [[Some (''a'', ''='', ''1'')], [Some (''b'', ''='', ''2'')]]\<close>
  \<open>leaves ''b=2 OR a=1'' = [[Some (''b'', ''='', ''2'')], [Some (''a'', ''='', ''1'')]]\<close>
  by code_simp+

text \<open>
  C5.  \<open>evalWhere\<close> is a function of the filter text and the record alone (it takes
  and returns no store), and for every record the filters \<open>a=1 OR b=2\<close> and
  \<open>b=2 OR a=1\<close> evaluate alike: to true exactly when \<open>a\<close> equals 1 or \<open>b\<close> equals 2.
\<close>

theorem or_commutes:
  \<open>evalWhere ''a=1 OR b=2'' r = evalWhere ''b=2 OR a=1'' r
    \<and> evalWhere ''a=1 OR b=2'' r =
        Inr (loose_eq_str (field r ''a'') ''1'' \<or> loose_eq_str (field r ''b'') ''2'')\<close>
  by (auto simp: evalWhere_leaves leaves_a_or_b evalOp_simps)

theorem or_commutes_witness:
  \<open>evalWhere ''a=1 OR b=2'' [''b'' \<mapsto> JStr ''2''] = Inr True
    \<and> evalWhere ''b=2 OR a=1'' [''b'' \<mapsto> JStr ''2''] = Inr True\<close>
  using or_commutes [of \<open>[''b'' \<mapsto> JStr ''2'']\<close>]
  by (auto simp: field_def)

section \<open>ORDER BY\<close>

lemma StringToNumber_samples:
  "StringToNumber ''100'' = Fin 100" "StringToNumber ''20'' = Fin 20" "StringToNumber ''5'' = Fin 5"
  "StringToNumber ''Zara'' = NaN" "StringToNumber ''Alice'' = NaN" "StringToNumber ''Bob'' = NaN"
  "StringToNumber ''Infinity'' = PInf" "StringToNumber ''abc'' = NaN"
  by code_simp+

lemma select_match_samples:
  \<open>select_match ''SELECT price FROM products ORDER BY price DESC'' =
     Some (''price'', ''products'', None, Some ''price'', Some ''DESC'', None)\<close>
  \<open>select_match ''SELECT name FROM users ORDER BY name ASC'' =
     Some (''name'', ''users'', None, Some ''name'', Some ''ASC'', None)\<close>
  \<open>select_match ''SELECT name FROM users ORDER BY name'' =
     Some (''name'', ''users'', None, Some ''name'', None, None)\<close>
  \<open>select_match ''SELECT k FROM t ORDER BY k ASC'' =
     Some (''k'', ''t'', None, Some ''k'', Some ''ASC'', None)\<close>
  by code_simp+

lemma columns_samples:
  "trim ''price'' = ''price''" "split_on (CHR '','') ''price'' = [''price'']"
  "trim ''name'' = ''name''" "split_on (CHR '','') ''name'' = [''name'']"
  "trim ''k'' = ''k''" "split_on (CHR '','') ''k'' = [''k'']"
  "toUpperCase ''DESC'' = ''DESC''" "toUpperCase ''ASC'' = ''ASC''"
  by code_simp+

lemmas select_simps = select_def truthy_def text_of_def load_def sort_by_def compare_rows_def
  coerceValue_def field_def project_def Let_def code_def

text \<open>
  C6, as stated, fails: the key \<open>Infinity\<close> does not parse as a finite number, yet it is
  coerced to a number, so against the text \<open>abc\<close> it compares as a Number against NaN
  (neither is less) and the two records keep their order, although \<open>Infinity\<close> is
  lexicographically less than \<open>abc\<close>.
\<close>

theorem order_by_finite_counterexample:
  \<open>coerceValue (Str ''Infinity'') = Num PInf
    \<and> str_less ''Infinity'' ''abc''
    \<and> select ''SELECT k FROM t ORDER BY k ASC''
        [''t'' \<mapsto> [[''k'' \<mapsto> JStr ''abc''], [''k'' \<mapsto> JStr ''Infinity'']]]
      = Inr [[''k'' \<mapsto> JStr ''abc''], [''k'' \<mapsto> JStr ''Infinity'']]\<close>
  by (simp add: select_simps select_match_samples columns_samples StringToNumber_samples)

text \<open>
  C6, amended.  ORDER BY coerces a text key to a number whenever \<open>Number(key)\<close> is not
  NaN (the text \<open>Infinity\<close> included); two keys that are both coerced compare as
  numbers, two text keys that both stay text compare lexicographically; the direction
  defaults to ascending.  The prices 100, 20, 5 (in that order, or as 5, 100, 20) come
  out descending as 100, 20, 5, and the names Zara, Alice, Bob ascending as Alice, Bob,
  Zara, with or without \<open>ASC\<close>.
\<close>

theorem order_by_coerces_numbers:
  \<open>coerceValue (Str s) = (if StringToNumber s = NaN then Str s else Num (StringToNumber s))
    \<and> (field a f = Str x \<and> field b f = Str y \<and> StringToNumber x \<noteq> NaN \<and> StringToNumber y \<noteq> NaN \<longrightarrow>
         compare_rows f desc a b =
           (if num_less (StringToNumber x) (StringToNumber y) then (if desc then 1 else - 1)
            else if num_less (StringToNumber y) (StringToNumber x) then (if desc then - 1 else 1)
            else 0))
    \<and> (field a f = Str x \<and> field b f = Str y \<and> StringToNumber x = NaN \<and> StringToNumber y = NaN \<longrightarrow>
         compare_rows f desc a b =
           (if str_less x y then (if desc then 1 else - 1)
            else if str_less y x then (if desc then - 1 else 1)
            else 0))
    \<and> select ''SELECT price FROM products ORDER BY price DESC''
        [''products'' \<mapsto> [[''price'' \<mapsto> JStr ''100''], [''price'' \<mapsto> JStr ''20''], [''price'' \<mapsto> JStr ''5'']]]
      = Inr [[''price'' \<mapsto> JStr ''100''], [''price'' \<mapsto> JStr ''20''], [''price'' \<mapsto> JStr ''5'']]
    \<and> select ''SELECT price FROM products ORDER BY price DESC''
        [''products'' \<mapsto> [[''price'' \<mapsto> JStr ''5''], [''price'' \<mapsto> JStr ''100''], [''price'' \<mapsto> JStr ''20'']]]
      = Inr [[''price'' \<mapsto> JStr ''100''], [''price'' \<mapsto> JStr ''20''], [''price'' \<mapsto> JStr ''5'']]
    \<and> select ''SELECT name FROM users ORDER BY name ASC''
        [''users'' \<mapsto> [[''name'' \<mapsto> JStr ''Zara''], [''name'' \<mapsto> JStr ''Alice''], [''name'' \<mapsto> JStr ''Bob'']]]
      = Inr [[''name'' \<mapsto> JStr ''Alice''], [''name'' \<mapsto> JStr ''Bob''], [''name'' \<mapsto> JStr ''Zara'']]
    \<and> select ''SELECT name FROM users ORDER BY name''
        [''users'' \<mapsto> [[''name'' \<mapsto> JStr ''Zara''], [''name'' \<mapsto> JStr ''Alice''], [''name'' \<mapsto> JStr ''Bob'']]]
      = Inr [[''name'' \<mapsto> JStr ''Alice''], [''name'' \<mapsto> JStr ''Bob''], [''name'' \<mapsto> JStr ''Zara'']]\<close>
proof (intro conjI impI)
  show "coerceValue (Str s) = (if StringToNumber s = NaN then Str s else Num (StringToNumber s))"
    by (simp add: coerceValue_def)
next
  assume "field a f = Str x \<and> field b f = Str y \<and> StringToNumber x \<noteq> NaN \<and> StringToNumber y \<noteq> NaN"
  then show "compare_rows f desc a b =
           (if num_less (StringToNumber x) (StringToNumber y) then (if desc then 1 else - 1)
            else if num_less (StringToNumber y) (StringToNumber x) then (if desc then - 1 else 1)
            else 0)"
    by (simp add: compare_rows_def coerceValue_def)
next
  assume "field a f = Str x \<and> field b f = Str y \<and> StringToNumber x = NaN \<and> StringToNumber y = NaN"
  then show "compare_rows f desc a b =
           (if str_less x y then (if desc then 1 else - 1)
            else if str_less y x then (if desc then - 1 else 1)
            else 0)"
    by (simp add: compare_rows_def coerceValue_def)
next
  show \<open>select ''SELECT price FROM products ORDER BY price DESC''
        [''products'' \<mapsto> [[''price'' \<mapsto> JStr ''100''], [''price'' \<mapsto> JStr ''20''], [''price'' \<mapsto> JStr ''5'']]]
      = Inr [[''price'' \<mapsto> JStr ''100''], [''price'' \<mapsto> JStr ''20''], [''price'' \<mapsto> JStr ''5'']]\<close>
    by (simp add: select_simps select_match_samples columns_samples StringToNumber_samples)
next
  show \<open>select ''SELECT price FROM products ORDER BY price DESC''
        [''products'' \<mapsto> [[''price'' \<mapsto> JStr ''5''], [''price'' \<mapsto> JStr ''100''], [''price'' \<mapsto> JStr ''20'']]]
      = Inr [[''price'' \<mapsto> JStr ''100''], [''price'' \<mapsto> JStr ''20''], [''price'' \<mapsto> JStr ''5'']]\<close>
    by (simp add: select_simps select_match_samples columns_samples StringToNumber_samples)
next
  show \<open>select ''SELECT name FROM users ORDER BY name ASC''
        [''users'' \<mapsto> [[''name'' \<mapsto> JStr ''Zara''], [''name'' \<mapsto> JStr ''Alice''], [''name'' \<mapsto> JStr ''Bob'']]]
      = Inr [[''name'' \<mapsto> JStr ''Alice''], [''name'' \<mapsto> JStr ''Bob''], [''name'' \<mapsto> JStr ''Zara'']]\<close>
    by (simp add: select_simps select_match_samples columns_samples StringToNumber_samples)
next
  show \<open>select ''SELECT name FROM users ORDER BY name''
        [''users'' \<mapsto> [[''name'' \<mapsto> JStr ''Zara''], [''name'' \<mapsto> JStr ''Alice''], [''name'' \<mapsto> JStr ''Bob'']]]
      = Inr [[''name'' \<mapsto> JStr ''Alice''], [''name'' \<mapsto> JStr ''Bob''], [''name'' \<mapsto> JStr ''Zara'']]\<close>
    by (simp add: select_simps select_match_samples columns_samples StringToNumber_samples toUpperCase_def)
qed

theorem order_by_coerces_numbers_witness:
  \<open>coerceValue (Str ''20'') = Num (Fin 20)
    \<and> compare_rows ''price'' True [''price'' \<mapsto> JStr ''100''] [''price'' \<mapsto> JStr ''20''] = - 1
    \<and> compare_rows ''name'' False [''name'' \<mapsto> JStr ''Zara''] [''name'' \<mapsto> JStr ''Alice''] = 1\<close>
  using order_by_coerces_numbers [of \<open>''20''\<close> \<open>[''price'' \<mapsto> JStr ''100'']\<close> \<open>''price''\<close> \<open>''100''\<close>
      \<open>[''price'' \<mapsto> JStr ''20'']\<close> \<open>''20''\<close> True, THEN conjunct1]
    order_by_coerces_numbers [of \<open>''20''\<close> \<open>[''price'' \<mapsto> JStr ''100'']\<close> \<open>''price''\<close> \<open>''100''\<close>
      \<open>[''price'' \<mapsto> JStr ''20'']\<close> \<open>''20''\<close> True, THEN conjunct2, THEN conjunct1]
    order_by_coerces_numbers [of \<open>''20''\<close> \<open>[''name'' \<mapsto> JStr ''Zara'']\<close> \<open>''name''\<close> \<open>''Zara''\<close>
      \<open>[''name'' \<mapsto> JStr ''Alice'']\<close> \<open>''Alice''\<close> False, THEN conjunct2, THEN conjunct2, THEN conjunct1]
  by (simp add: field_def StringToNumber_samples code_def)

section \<open>DELETE without WHERE, UPDATE without a matching record\<close>

lemma update_rows_none:
  "truthy w \<Longrightarrow> \<forall>r\<in>set rows. evalWhere (text_of w) r = Inr False \<Longrightarrow>
     update_rows w updates rows = Inr (rows, 0)"
  by (induction rows) auto

lemma lit_match_append: "lit_match w (w @ t)"
  by (simp add: lit_match_def)

lemma matches_Seq_head:
  "matches a s cs = (k, c1) # as \<Longrightarrow> matches b (drop k s) c1 = (j, c2) # bs \<Longrightarrow>
     \<exists>rest. matches (Seq a b) s cs = (k + j, c2) # rest"
  by simp

lemma matches_table_name:
  assumes "t \<noteq> []" "\<forall>c\<in>set t. is_word c"
  shows "\<exists>rest. matches (Seq (Lit w) (Seq (Cap i (Rep CWord 1 True)) (Seq (Opt (Seq (Lit '' WHERE '') x)) Eol)))
           (w @ t) cs = (length w + length t, cs(i \<mapsto> t)) # rest"
proof -
  let ?r3 = "Seq (Opt (Seq (Lit '' WHERE '') x)) Eol"
  let ?r2 = "Seq (Cap i (Rep CWord 1 True)) ?r3"
  have tw: "takeWhile (cc_match CWord) t = t"
    using assms(2) by (simp add: takeWhile_eq_all_conv)
  obtain n where n: "length t = Suc n"
    using assms(1) by (cases t) auto
  have rc: "rep_counts CWord (Suc 0) True t = length t # rev [Suc 0 ..< Suc n]"
    by (simp add: rep_counts_def tw n)
  have opt: "matches (Opt (Seq (Lit '' WHERE '') x)) [] c = [(0, c)]" for c
    by (simp add: lit_match_def)
  have eol: "matches Eol (drop 0 []) c = [(0, c)]" for c
    by simp
  obtain r3 where h3: "matches ?r3 [] (cs(i \<mapsto> t)) = (0 + 0, cs(i \<mapsto> t)) # r3"
    using matches_Seq_head [OF opt eol] by blast
  have cap: "matches (Cap i (Rep CWord 1 True)) t cs =
      (length t, cs(i \<mapsto> t)) # map (\<lambda>k. (k, cs(i \<mapsto> take k t))) (rev [Suc 0 ..< Suc n])"
    by (simp add: rc comp_def del: upt_Suc)
  have h3': "matches ?r3 (drop (length t) t) (cs(i \<mapsto> t)) = (0, cs(i \<mapsto> t)) # r3"
    using h3 by simp
  obtain r2 where h2: "matches ?r2 t cs = (length t + 0, cs(i \<mapsto> t)) # r2"
    using matches_Seq_head [OF cap h3'] by blast
  have lit: "matches (Lit w) (w @ t) cs = (length w, cs) # []"
    by (simp add: lit_match_append)
  have h2': "matches ?r2 (drop (length w) (w @ t)) cs = (length t, cs(i \<mapsto> t)) # r2"
    using h2 by simp
  show ?thesis
    using matches_Seq_head [OF lit h2'] by blast
qed

lemma delete_match_table:
  assumes "t \<noteq> []" "\<forall>c\<in>set t. is_word c"
  shows "delete_match (''DELETE FROM '' @ t) = Some (t, None)"
proof -
  obtain rest where
    m: "matches delete_rx (''DELETE FROM '' @ t) Map.empty =
          (length ''DELETE FROM '' + length t, [1 \<mapsto> t]) # rest"
    using matches_table_name [OF assms, of "''DELETE FROM ''" 1 "Cap 2 (Rep CDot 1 True)" Map.empty]
    unfolding delete_rx_def seqs.simps by blast
  have "rx_search delete_rx 0 (''DELETE FROM '' @ t) =
      Some (0, [1 \<mapsto> t, 0 \<mapsto> take (length ''DELETE FROM '' + length t) (''DELETE FROM '' @ t)])"
    by (subst rx_search_unfold) (simp only: m list.case prod.case)
  then show ?thesis
    unfolding delete_match_def rx_exec_def
    by (simp only: option.case prod.case grp_def) simp
qed

lemma save_load_same: "load (save st table rows) table = map stringify_row rows"
  by (simp add: load_def save_def)

lemma save_load_other: "t \<noteq> table \<Longrightarrow> load (save st table rows) t = load st t"
  by (simp add: load_def save_def)

lemma update_none:
  assumes "update_match sql = Some (table, setClause, Some w)" "w \<noteq> []"
    "\<forall>r\<in>set (load st table). evalWhere w r = Inr False"
  shows "update sql st = (Inr 0, save st table (load st table))"
proof -
  have "update_rows (Some w) (set_updates setClause) (load st table) = Inr (load st table, 0)"
    using assms by (intro update_rows_none) (auto simp: truthy_def text_of_def)
  with assms(1) show ?thesis
    by (simp add: update_def)
qed

lemma pow2_le_1e400: "(2::nat) ^ 1200 \<le> 10 ^ 400"
proof -
  have "(2::nat) ^ (3 * 400) = (2 ^ 3) ^ 400" by (rule power_mult)
  also have "\<dots> \<le> 10 ^ 400" by (rule power_mono) auto
  finally show ?thesis by (simp del: power_numeral)
qed

lemma to_double_1e400: "to_double (10 ^ 400) = PInf"
proof -
  have "to_double (of_nat (10 ^ 400)) = PInf"
    using pow2_le_1e400 by (rule to_double_of_nat_overflow) simp
  then show ?thesis by (simp del: power_numeral)
qed

lemma to_double_30: "to_double 30 = Fin 30"
  by code_simp

lemma update_match_t:
  \<open>update_match ''UPDATE t SET x = 1 WHERE id = 999'' = Some (''t'', ''x = 1'', Some ''id = 999'')\<close>
  by code_simp

lemma update_match_none:
  \<open>update_match ''UPDATE users SET name = "Bob" WHERE id = 999'' =
     Some (''users'', ''name = "Bob"'', Some ''id = 999'')\<close>
  by code_simp

lemma leaves_id_999: \<open>leaves ''id = 999'' = [[Some (''id'', ''='', ''999'')]]\<close>
  by code_simp

text \<open>
  C7, as the statement is written, at a table file that holds the literal \<open>1e400\<close>:
  the field is read as \<open>Infinity\<close>, the WHERE clause holds for no record and the count
  is 0, yet the record is written back with \<open>null\<close> in the field.
\<close>

theorem update_none_rewrites_counterexample:
  \<open>evalWhere ''id = 999'' [''x'' \<mapsto> JNum (10 ^ 400)] = Inr False
    \<and> fst (update ''UPDATE t SET x = 1 WHERE id = 999'' [''t'' \<mapsto> [[''x'' \<mapsto> JNum (10 ^ 400)]]]) = Inr 0
    \<and> field (hd (load [''t'' \<mapsto> [[''x'' \<mapsto> JNum (10 ^ 400)]]] ''t'')) ''x'' = Num PInf
    \<and> load (snd (update ''UPDATE t SET x = 1 WHERE id = 999'' [''t'' \<mapsto> [[''x'' \<mapsto> JNum (10 ^ 400)]]])) ''t''
        = [[''x'' \<mapsto> JNull]]
    \<and> field (hd (load (snd (update ''UPDATE t SET x = 1 WHERE id = 999''
          [''t'' \<mapsto> [[''x'' \<mapsto> JNum (10 ^ 400)]]])) ''t'')) ''x'' = Null\<close>
proof -
  let ?r = \<open>[''x'' \<mapsto> JNum (10 ^ 400)]\<close>
  let ?st = \<open>[''t'' \<mapsto> [?r]]\<close>
  let ?sql = \<open>''UPDATE t SET x = 1 WHERE id = 999''\<close>
  have w: \<open>evalWhere ''id = 999'' ?r = Inr False\<close>
    by (simp add: evalWhere_leaves leaves_id_999 evalOp_simps field_def del: power_numeral)
  have l: \<open>load ?st ''t'' = [?r]\<close>
    by (simp add: load_def del: power_numeral)
  have u: \<open>update ?sql ?st = (Inr 0, save ?st ''t'' (load ?st ''t''))\<close>
    by (rule update_none [OF update_match_t]) (simp_all add: l w del: power_numeral)
  have s: \<open>stringify_row ?r = [''x'' \<mapsto> JNull]\<close>
    by (rule ext) (simp add: stringify_row_def to_double_1e400 del: power_numeral)
  have a: \<open>load (snd (update ?sql ?st)) ''t'' = [[''x'' \<mapsto> JNull]]\<close>
    unfolding u by (simp only: snd_conv save_load_same l list.map s)
  have f: \<open>field (hd (load ?st ''t'')) ''x'' = Num PInf\<close>
    unfolding l by (simp add: field_def to_double_1e400 del: power_numeral)
  have g: \<open>field (hd (load (snd (update ?sql ?st)) ''t'')) ''x'' = Null\<close>
    unfolding a by (simp add: field_def)
  have c: \<open>fst (update ?sql ?st) = Inr 0\<close>
    unfolding u by simp
  show ?thesis
    using w c f a g by (intro conjI)
qed

text \<open>
  C7.  \<open>DELETE FROM\<close> followed by a table name and nothing else, and more generally a
  DELETE statement whose pattern matches without a WHERE clause, saves the empty table.
  An UPDATE statement whose WHERE clause holds for no record of the table returns the
  count 0 and writes the records of the table back as they were read, every other table
  being left as it is: the table has as many records as before, a record every Number
  of which is finite is unchanged, and where that is so for all of them the table reads
  as before.
\<close>

theorem delete_all_and_update_none:
  "(table \<noteq> [] \<and> (\<forall>c\<in>set table. is_word c) \<longrightarrow>
      delete (''DELETE FROM '' @ table) st = (Inr (), save st table [])
      \<and> load (snd (delete (''DELETE FROM '' @ table) st)) table = [])
   \<and> (delete_match sql = Some (table, None) \<longrightarrow>
      delete sql st = (Inr (), save st table []) \<and> load (snd (delete sql st)) table = [])
   \<and> (update_match sql = Some (table, setClause, Some w) \<and> w \<noteq> []
        \<and> (\<forall>r\<in>set (load st table). evalWhere w r = Inr False) \<longrightarrow>
      fst (update sql st) = Inr 0
      \<and> load (snd (update sql st)) table = map stringify_row (load st table)
      \<and> (\<forall>t. t \<noteq> table \<longrightarrow> load (snd (update sql st)) t = load st t)
      \<and> length (load (snd (update sql st)) table) = length (load st table)
      \<and> (\<forall>i < length (load st table).
           (\<forall>f q. (load st table ! i) f = Some (JNum q) \<longrightarrow> (\<exists>d. to_double q = Fin d)) \<longrightarrow>
           load (snd (update sql st)) table ! i = load st table ! i)
      \<and> ((\<forall>r\<in>set (load st table). \<forall>f q. r f = Some (JNum q) \<longrightarrow> (\<exists>d. to_double q = Fin d)) \<longrightarrow>
           (\<forall>t. load (snd (update sql st)) t = load st t)))"
proof (intro conjI impI)
  assume "table \<noteq> [] \<and> (\<forall>c\<in>set table. is_word c)"
  then have "delete_match (''DELETE FROM '' @ table) = Some (table, None)"
    by (intro delete_match_table) auto
  then show d: "delete (''DELETE FROM '' @ table) st = (Inr (), save st table [])"
    unfolding delete_def by (simp only: option.case prod.case truthy_def if_False sum.case)
  show "load (snd (delete (''DELETE FROM '' @ table) st)) table = []"
    unfolding d by (simp add: save_load_same)
next
  assume "delete_match sql = Some (table, None)"
  then show "delete sql st = (Inr (), save st table [])"
    by (simp add: delete_def truthy_def)
  then show "load (snd (delete sql st)) table = []"
    by (simp add: save_load_same)
next
  assume a: "update_match sql = Some (table, setClause, Some w) \<and> w \<noteq> []
        \<and> (\<forall>r\<in>set (load st table). evalWhere w r = Inr False)"
  then have u: "update sql st = (Inr 0, save st table (load st table))"
    by (intro update_none) auto
  show "fst (update sql st) = Inr 0"
    by (simp add: u)
  show s: "load (snd (update sql st)) table = map stringify_row (load st table)"
    by (simp add: u save_load_same)
  show o: "\<forall>t. t \<noteq> table \<longrightarrow> load (snd (update sql st)) t = load st t"
    by (simp add: u save_load_other)
  show "length (load (snd (update sql st)) table) = length (load st table)"
    by (simp add: s)
  show "\<forall>i < length (load st table).
           (\<forall>f q. (load st table ! i) f = Some (JNum q) \<longrightarrow> (\<exists>d. to_double q = Fin d)) \<longrightarrow>
           load (snd (update sql st)) table ! i = load st table ! i"
    by (simp add: s stringify_row_finite)
  assume "\<forall>r\<in>set (load st table). \<forall>f q. r f = Some (JNum q) \<longrightarrow> (\<exists>d. to_double q = Fin d)"
  then have "map stringify_row (load st table) = load st table"
    by (rule stringify_rows_finite)
  with s o show "\<forall>t. load (snd (update sql st)) t = load st t"
    by metis
qed

theorem delete_all_and_update_none_witness:
  \<open>load (snd (delete ''DELETE FROM users''
        [''users'' \<mapsto> [[''id'' \<mapsto> JStr ''1'', ''name'' \<mapsto> JStr ''Alice''],
                      [''id'' \<mapsto> JStr ''2'', ''name'' \<mapsto> JStr ''Bob'']]])) ''users'' = []
    \<and> fst (update ''UPDATE users SET name = "Bob" WHERE id = 999''
        [''users'' \<mapsto> [[''id'' \<mapsto> JStr ''1'', ''name'' \<mapsto> JStr ''Alice'', ''age'' \<mapsto> JNum 30]]]) = Inr 0
    \<and> load (snd (update ''UPDATE users SET name = "Bob" WHERE id = 999''
        [''users'' \<mapsto> [[''id'' \<mapsto> JStr ''1'', ''name'' \<mapsto> JStr ''Alice'', ''age'' \<mapsto> JNum 30]]])) ''users''
        = [[''id'' \<mapsto> JStr ''1'', ''name'' \<mapsto> JStr ''Alice'', ''age'' \<mapsto> JNum 30]]\<close>
proof -
  let ?st1 = \<open>[''users'' \<mapsto> [[''id'' \<mapsto> JStr ''1'', ''name'' \<mapsto> JStr ''Alice''],
                      [''id'' \<mapsto> JStr ''2'', ''name'' \<mapsto> JStr ''Bob'']]]\<close>
  let ?st2 = \<open>[''users'' \<mapsto> [[''id'' \<mapsto> JStr ''1'', ''name'' \<mapsto> JStr ''Alice'', ''age'' \<mapsto> JNum 30]]]\<close>
  have 3: \<open>load ?st2 ''users'' = [[''id'' \<mapsto> JStr ''1'', ''name'' \<mapsto> JStr ''Alice'', ''age'' \<mapsto> JNum 30]]\<close>
    by (simp add: load_def)
  have w: \<open>\<forall>r\<in>set (load ?st2 ''users''). evalWhere ''id = 999'' r = Inr False\<close>
    by (simp add: 3 evalWhere_leaves leaves_id_999 evalOp_simps field_def)
  have n: \<open>\<forall>r\<in>set (load ?st2 ''users''). \<forall>f q. r f = Some (JNum q) \<longrightarrow> (\<exists>d. to_double q = Fin d)\<close>
    by (simp add: 3 to_double_30 split: if_splits)
  have 1: \<open>load (snd (delete ''DELETE FROM users'' ?st1)) ''users'' = []\<close>
    using delete_all_and_update_none [of \<open>''users''\<close> ?st1, THEN conjunct1]
    by (simp add: is_word_def code_def save_load_same)
  have 2: \<open>fst (update ''UPDATE users SET name = "Bob" WHERE id = 999'' ?st2) = Inr 0
      \<and> (\<forall>t. load (snd (update ''UPDATE users SET name = "Bob" WHERE id = 999'' ?st2)) t = load ?st2 t)\<close>
    using delete_all_and_update_none [of \<open>''users''\<close> ?st2
        \<open>''UPDATE users SET name = "Bob" WHERE id = 999''\<close> \<open>''name = "Bob"''\<close> \<open>''id = 999''\<close>,
        THEN conjunct2, THEN conjunct2] w n
    by (simp add: update_match_none)
  show ?thesis
    using 1 2 3 by simp
qed

section \<open>Statements that do not parse\<close>

lemma insert_match_malformed: \<open>insert_match ''INSERT INTO users VALUES (1, "Alice")'' = None\<close>
  by code_simp

lemma select_match_malformed: \<open>select_match ''SELECT FROM users'' = None\<close>
  by code_simp

text \<open>
  C8.  When the pattern of a statement does not match, the call ends with the error
  of that statement and the store is the one the call started from: nothing is loaded,
  appended or saved.
\<close>

theorem parse_failure_is_atomic:
  "(insert_match sql = None \<longrightarrow> insert sql st = (Inl (Error ''Invalid INSERT syntax''), st))
   \<and> (delete_match sql = None \<longrightarrow> delete sql st = (Inl (Error ''Invalid DELETE syntax''), st))
   \<and> (update_match sql = None \<longrightarrow> update sql st = (Inl (Error ''Invalid UPDATE syntax''), st))
   \<and> (select_match sql = None \<longrightarrow> select sql st = Inl (Error ''Invalid SELECT syntax''))"
  by (simp add: insert_def delete_def update_def select_def)

theorem parse_failure_is_atomic_witness:
  \<open>insert_match ''INSERT INTO users VALUES (1, "Alice")'' = None
    \<and> insert ''INSERT INTO users VALUES (1, "Alice")'' [''users'' \<mapsto> [[''id'' \<mapsto> JStr ''7'']]]
        = (Inl (Error ''Invalid INSERT syntax''), [''users'' \<mapsto> [[''id'' \<mapsto> JStr ''7'']]])\<close>
  using parse_failure_is_atomic [of \<open>''INSERT INTO users VALUES (1, "Alice")''\<close>
      \<open>[''users'' \<mapsto> [[''id'' \<mapsto> JStr ''7'']]]\<close>]
  by (simp add: insert_match_malformed)

section \<open>The leaf pattern is unanchored\<close>

lemma concat_map_filter_fst:
  "concat (map f (filter P xs)) = concat (map (\<lambda>x. if P x then f x else []) xs)"
  by (induction xs) auto

lemma filter_upt_le: "filter (\<lambda>k. k \<le> n) [a ..< Suc m] = [a ..< Suc (min n m)]"
proof (induction m)
  case 0
  show ?case by auto
next
  case (Suc m)
  show ?case
  proof (cases "Suc m \<le> n")
    case True
    then have "min n (Suc m) = Suc m" "min n m = m" by auto
    with Suc True show ?thesis by auto
  next
    case False
    then have "min n (Suc m) = n" "min n m = n" by auto
    with Suc False show ?thesis by auto
  qed
qed

lemma length_takeWhile_take: "length (takeWhile P (take n s)) = min n (length (takeWhile P s))"
proof (induction s arbitrary: n)
  case Nil
  show ?case by simp
next
  case (Cons x xs)
  show ?case by (cases n) (auto simp: Cons)
qed

lemma rep_counts_take:
  "rep_counts c mn g (take n s) = filter (\<lambda>k. k \<le> n) (rep_counts c mn g s)"
  by (simp add: rep_counts_def Let_def length_takeWhile_take filter_upt_le rev_filter [symmetric]
      del: upt_Suc)

lemma lit_match_take: "lit_match w (take n s) \<longleftrightarrow> lit_match w s \<and> length w \<le> n"
  by (auto simp: lit_match_def min_def)

lemma matches_take:
  "anchor_free r \<Longrightarrow> matches r (take n s) cs = filter (\<lambda>(k, c). k \<le> n) (matches r s cs)"
proof (induction r arbitrary: n s cs)
  case (Cls x)
  show ?case by (cases s; cases n) auto
next
  case (Rep c mn g)
  show ?case by (simp add: rep_counts_take filter_map comp_def)
next
  case (Lit w)
  show ?case by (simp add: lit_match_take)
next
  case (Seq a b)
  then have a: "\<And>n s cs. matches a (take n s) cs = filter (\<lambda>(k, c). k \<le> n) (matches a s cs)"
    and b: "\<And>n s cs. matches b (take n s) cs = filter (\<lambda>(k, c). k \<le> n) (matches b s cs)"
    by auto
  have inner: "(if k \<le> n then map (\<lambda>(j, c2). (k + j, c2)) (matches b (drop k (take n s)) c1) else [])
      = filter (\<lambda>(k, c). k \<le> n) (map (\<lambda>(j, c2). (k + j, c2)) (matches b (drop k s) c1))" for k c1
  proof (cases "k \<le> n")
    case True
    have "drop k (take n s) = take (n - k) (drop k s)"
      by (simp add: drop_take)
    then show ?thesis using True
      by (auto simp: b filter_map comp_def case_prod_unfold intro!: filter_cong arg_cong [where f = "map _"])
  next
    case False
    have "filter (\<lambda>(k, c). k \<le> n) (map (\<lambda>(j, c2). (k + j, c2)) (matches b (drop k s) c1)) = []"
      using False by (auto simp: filter_empty_conv)
    then show ?thesis using False by simp
  qed
  have "matches (Seq a b) (take n s) cs =
      concat (map (\<lambda>(k, c1). if k \<le> n then map (\<lambda>(j, c2). (k + j, c2)) (matches b (drop k (take n s)) c1) else [])
        (matches a s cs))"
    by (simp add: a concat_map_filter_fst case_prod_unfold cong: if_cong)
  also have "\<dots> = concat (map (\<lambda>(k, c1). filter (\<lambda>(k, c). k \<le> n) (map (\<lambda>(j, c2). (k + j, c2)) (matches b (drop k s) c1)))
        (matches a s cs))"
    by (simp only: inner)
  also have "\<dots> = filter (\<lambda>(k, c). k \<le> n) (matches (Seq a b) s cs)"
    by (simp add: filter_concat comp_def case_prod_unfold)
  finally show ?case .
next
  case (Alt a b)
  then show ?case by simp
next
  case (Opt a)
  then show ?case by simp
next
  case (Cap i a)
  then have "matches a (take n s) cs = filter (\<lambda>(k, c). k \<le> n) (matches a s cs)"
    by simp
  then show ?case
    by (auto simp: filter_map comp_def case_prod_unfold min_def intro!: map_cong)
next
  case Eol
  then show ?case by simp
qed

lemma rx_search_found:
  "rx_search r i s = Some (j, c) \<Longrightarrow>
     \<exists>k c' rest. i \<le> j \<and> j - i \<le> length s \<and> matches r (drop (j - i) s) Map.empty = (k, c') # rest
        \<and> c = c'(0 \<mapsto> take k (drop (j - i) s))
        \<and> (\<forall>m < j - i. matches r (drop m s) Map.empty = [])"
proof (induction s arbitrary: i)
  case Nil
  show ?case
  proof (cases "matches r [] Map.empty")
    case Nil
    with Nil.prems show ?thesis by simp
  next
    case (Cons p ps)
    obtain k c' where p: "p = (k, c')" by (cases p)
    with Cons Nil.prems have "j = i" "c = c'(0 \<mapsto> [])" by auto
    with Cons p show ?thesis by simp
  qed
next
  case (Cons x xs)
  show ?case
  proof (cases "matches r (x # xs) Map.empty")
    case Nil
    with Cons.prems have "rx_search r (Suc i) xs = Some (j, c)" by simp
    from Cons.IH[OF this] obtain k c' rest where
      h: "Suc i \<le> j" "j - Suc i \<le> length xs" "matches r (drop (j - Suc i) xs) Map.empty = (k, c') # rest"
         "c = c'(0 \<mapsto> take k (drop (j - Suc i) xs))"
         "\<forall>m < j - Suc i. matches r (drop m xs) Map.empty = []"
      by blast
    from h(1) have e: "j - i = Suc (j - Suc i)" by simp
    have "\<forall>m < j - i. matches r (drop m (x # xs)) Map.empty = []"
    proof (intro allI impI)
      fix m assume "m < j - i"
      then show "matches r (drop m (x # xs)) Map.empty = []"
        using h(5) Nil e by (cases m) auto
    qed
    with h e show ?thesis by auto
  next
    case (Cons p ps)
    obtain k c' where "p = (k, c')" by (cases p)
    with Cons Cons.prems show ?thesis by auto
  qed
qed

lemma cond_rx_anchor_free: "anchor_free cond_rx"
  by (simp add: cond_rx_def)

lemma cond_match_a1: \<open>cond_match ''a=1 OR b=2'' = Some (''a'', ''='', ''1'')\<close>
  by code_simp

lemma cond_match_a1': \<open>cond_match ''a=1'' = Some (''a'', ''='', ''1'')\<close>
  by code_simp

lemma cond_match_age: \<open>cond_match ''(age > 30 AND'' = Some (''age'', ''>'', ''30'')\<close>
  by code_simp

lemma cond_match_age': \<open>cond_match ''age > 30'' = Some (''age'', ''>'', ''30'')\<close>
  by code_simp

lemma evalOp_eq: \<open>evalOp ''='' ''1'' v = Inr (loose_eq_str v ''1'')\<close>
  by (simp add: evalOp_simps)

lemma evalOp_gt: \<open>evalOp ''>'' ''30'' v = Inr (num_greater (parseFloat v) (parseFloat_str ''30''))\<close>
  by (simp add: evalOp_simps)

text \<open>
  C9.  The leaf pattern is searched for, not anchored.  When it matches a condition
  text at index \<open>i\<close>, the matched text is the part of the condition text that starts
  there and no earlier index has a match; the matched text alone gives the same field,
  operator and value, and the condition text evaluates to what that operator gives for
  the field of the record and the value, as the matched text alone does.  So
  \<open>a=1 OR b=2\<close> handed over as one leaf evaluates as \<open>a=1\<close> does, to whether the field
  \<open>a\<close> of the record equals \<open>1\<close>, and \<open>(age > 30 AND\<close> as \<open>age > 30\<close> does.
\<close>

theorem leaf_match_is_unanchored:
  \<open>(rx_exec cond_rx expr = Some (i, c) \<longrightarrow>
       grp c 0 = take (length (grp c 0)) (drop i expr)
       \<and> (\<forall>j < i. matches cond_rx (drop j expr) Map.empty = [])
       \<and> cond_match (grp c 0) = Some (grp c 1, grp c 2, grp c 3)
       \<and> evalCondition expr r = evalOp (grp c 2) (grp c 3) (field r (grp c 1))
       \<and> evalCondition (grp c 0) r = evalOp (grp c 2) (grp c 3) (field r (grp c 1)))
    \<and> evalCondition ''a=1 OR b=2'' r = Inr (loose_eq_str (field r ''a'') ''1'')
    \<and> evalCondition ''a=1'' r = Inr (loose_eq_str (field r ''a'') ''1'')
    \<and> evalCondition ''(age > 30 AND'' r = Inr (num_greater (parseFloat (field r ''age'')) (parseFloat_str ''30''))
    \<and> evalCondition ''age > 30'' r = Inr (num_greater (parseFloat (field r ''age'')) (parseFloat_str ''30''))\<close>
proof (intro conjI impI)
  assume m: "rx_exec cond_rx expr = Some (i, c)"
  from rx_search_found[OF m[unfolded rx_exec_def]] obtain k c' rest where
    h: "i \<le> length expr" "matches cond_rx (drop i expr) Map.empty = (k, c') # rest"
       "c = c'(0 \<mapsto> take k (drop i expr))"
       "\<forall>m < i. matches cond_rx (drop m expr) Map.empty = []"
    by auto
  have kl: "k \<le> length (drop i expr)"
    using matches_le[of k c' cond_rx "drop i expr" Map.empty] h(2) by simp
  have g0: "grp c 0 = take k (drop i expr)"
    by (simp add: h(3) grp_def)
  show "grp c 0 = take (length (grp c 0)) (drop i expr)"
    using kl by (simp add: g0 min_def)
  show "\<forall>j < i. matches cond_rx (drop j expr) Map.empty = []"
    by (rule h(4))
  have "matches cond_rx (take k (drop i expr)) Map.empty
      = filter (\<lambda>(k', c). k' \<le> k) (matches cond_rx (drop i expr) Map.empty)"
    by (rule matches_take[OF cond_rx_anchor_free])
  then have "\<exists>rest'. matches cond_rx (take k (drop i expr)) Map.empty = (k, c') # rest'"
    by (simp add: h(2))
  then have e: "rx_exec cond_rx (grp c 0) = Some (0, c)"
    unfolding rx_exec_def g0
    by (subst rx_search_unfold) (auto simp: h(3))
  show "cond_match (grp c 0) = Some (grp c 1, grp c 2, grp c 3)"
    by (simp add: cond_match_def e)
  show "evalCondition expr r = evalOp (grp c 2) (grp c 3) (field r (grp c 1))"
    by (simp add: evalCondition_def cond_match_def m)
  show "evalCondition (grp c 0) r = evalOp (grp c 2) (grp c 3) (field r (grp c 1))"
    by (simp add: evalCondition_def cond_match_def e)
next
  show \<open>evalCondition ''a=1 OR b=2'' r = Inr (loose_eq_str (field r ''a'') ''1'')\<close>
    by (simp add: evalCondition_def cond_match_a1 evalOp_eq)
next
  show \<open>evalCondition ''a=1'' r = Inr (loose_eq_str (field r ''a'') ''1'')\<close>
    by (simp add: evalCondition_def cond_match_a1' evalOp_eq)
next
  show \<open>evalCondition ''(age > 30 AND'' r = Inr (num_greater (parseFloat (field r ''age'')) (parseFloat_str ''30''))\<close>
    by (simp add: evalCondition_def cond_match_age evalOp_gt)
next
  show \<open>evalCondition ''age > 30'' r = Inr (num_greater (parseFloat (field r ''age'')) (parseFloat_str ''30''))\<close>
    by (simp add: evalCondition_def cond_match_age' evalOp_gt)
qed

lemma match_span_sample: \<open>match_span cond_rx ''(a=1 OR b=2'' = Some (1, ''a=1'')\<close>
  by code_simp

lemma cond_match_sample: \<open>cond_match ''(a=1 OR b=2'' = Some (''a'', ''='', ''1'')\<close>
  by code_simp

theorem leaf_match_is_unanchored_witness:
  \<open>\<exists>c. rx_exec cond_rx ''(a=1 OR b=2'' = Some (1, c)
       \<and> grp c 0 = ''a=1'' \<and> grp c 1 = ''a'' \<and> grp c 2 = ''='' \<and> grp c 3 = ''1''
       \<and> cond_match ''a=1'' = Some (''a'', ''='', ''1'')
       \<and> evalCondition ''(a=1 OR b=2'' [''a'' \<mapsto> JStr ''1''] = Inr True
       \<and> evalCondition ''(a=1 OR b=2'' [''a'' \<mapsto> JStr ''0'', ''b'' \<mapsto> JStr ''2''] = Inr False
       \<and> evalCondition ''a=1'' [''a'' \<mapsto> JStr ''1''] = Inr True
       \<and> evalCondition ''a=1'' [''a'' \<mapsto> JStr ''0'', ''b'' \<mapsto> JStr ''2''] = Inr False\<close>
proof -
  obtain c where c: \<open>rx_exec cond_rx ''(a=1 OR b=2'' = Some (1, c)\<close> and g: \<open>grp c 0 = ''a=1''\<close>
    using match_span_sample by (auto simp: match_span_def)
  have g': \<open>grp c 1 = ''a'' \<and> grp c 2 = ''='' \<and> grp c 3 = ''1''\<close>
    using cond_match_sample c by (simp add: cond_match_def)
  have t: \<open>cond_match (grp c 0) = Some (grp c 1, grp c 2, grp c 3)
      \<and> evalCondition ''(a=1 OR b=2'' r = evalOp (grp c 2) (grp c 3) (field r (grp c 1))
      \<and> evalCondition (grp c 0) r = evalOp (grp c 2) (grp c 3) (field r (grp c 1))\<close> for r
    using leaf_match_is_unanchored [of \<open>''(a=1 OR b=2''\<close> 1 c r] c by simp
  have v1: \<open>evalOp ''='' ''1'' (field [''a'' \<mapsto> JStr ''1''] ''a'') = Inr True\<close>
    by (simp add: evalOp_eq field_def)
  have v2: \<open>evalOp ''='' ''1'' (field [''a'' \<mapsto> JStr ''0'', ''b'' \<mapsto> JStr ''2''] ''a'') = Inr False\<close>
    by (simp add: evalOp_eq field_def)
  show ?thesis
    using c g g' t [of \<open>[''a'' \<mapsto> JStr ''1'']\<close>] t [of \<open>[''a'' \<mapsto> JStr ''0'', ''b'' \<mapsto> JStr ''2'']\<close>] v1 v2
    by (intro exI [of _ c]) simp
qed

section \<open>Quote stripping\<close>

















end
